theory Spec2Isabelle
  imports Main "HOL-Library.Word" "HOL-Library.AList"
begin

unbundle bit_operations_syntax

section \<open>Python values used by gen\_builtin\_symbols.py\<close>

text \<open>
  The generator is a Python 2 script. Its strings are byte strings (\<^typ>\<open>string\<close>), its
  integers are unbounded (\<^typ>\<open>int\<close>), and every exception it can raise aborts the run.
  Exceptions are values of the type \<open>error\<close>; a function that can raise returns
  \<open>error + 'a\<close> with \<open>Inl\<close> for the exception.
\<close>

datatype error =
    KeyError string
  | IndexError
  | TypeError
  | ValueError
  | UnrecognizedType string
  | UnexpectedSecondarySize
  | UnexpectedLevel string
  | FunctionOpNotDefined
  | UnexpectedGenType string
  | MultipleGenTypes
  | GroupEndMismatch string string
  | UnexpectedLine string

text \<open>A \<open>for\<close> loop whose body can raise: the first exception ends the loop.\<close>

fun map_err :: "('a \<Rightarrow> error + 'b) \<Rightarrow> 'a list \<Rightarrow> error + 'b list" where
  "map_err f [] = Inr []"
| "map_err f (x # xs) =
     (case f x of Inl e \<Rightarrow> Inl e
      | Inr y \<Rightarrow> (case map_err f xs of Inl e \<Rightarrow> Inl e | Inr ys \<Rightarrow> Inr (y # ys)))"

fun fold_err :: "('a \<Rightarrow> 's \<Rightarrow> error + 's) \<Rightarrow> 'a list \<Rightarrow> 's \<Rightarrow> error + 's" where
  "fold_err f [] s = Inr s"
| "fold_err f (x # xs) s = (case f x s of Inl e \<Rightarrow> Inl e | Inr s' \<Rightarrow> fold_err f xs s')"

definition ord :: "char \<Rightarrow> int" where
  "ord c = of_char c"

definition startswith :: "string \<Rightarrow> string \<Rightarrow> bool" where
  "startswith s p = (take (length p) s = p)"

text \<open>\<open>sep.join(xs)\<close>.\<close>

fun join :: "string \<Rightarrow> string list \<Rightarrow> string" where
  "join sep [] = []"
| "join sep [x] = x"
| "join sep (x # y # ys) = x @ sep @ join sep (y # ys)"

text \<open>\<open>str(n)\<close> of an integer: decimal digits, with a minus sign when negative.\<close>

definition digit_char :: "nat \<Rightarrow> char" where
  "digit_char d = char_of (of_char CHR ''0'' + d)"

fun str_nat :: "nat \<Rightarrow> string" where
  "str_nat n = (if n < 10 then [digit_char n] else str_nat (n div 10) @ [digit_char (n mod 10)])"

declare str_nat.simps [simp del]

definition str_int :: "int \<Rightarrow> string" where
  "str_int i = (if i < 0 then CHR ''-'' # str_nat (nat (- i)) else str_nat (nat i))"

text \<open>\<open>'%x' % n\<close> of a non-negative integer: lower-case hexadecimal digits.\<close>

definition hex_char :: "nat \<Rightarrow> char" where
  "hex_char d = (if d < 10 then char_of (of_char CHR ''0'' + d)
                 else char_of (of_char CHR ''a'' + (d - 10)))"

fun hex_nat :: "nat \<Rightarrow> string" where
  "hex_nat n = (if n < 16 then [hex_char n] else hex_nat (n div 16) @ [hex_char (n mod 16)])"

declare hex_nat.simps [simp del]

section \<open>The 32-bit name hash\<close>

text \<open>
  \<^verbatim>\<open>
  def hash32(str):
      fnvOffsetBasis = 0x811c9dc5
      fnvPrime = 16777619
      hash = fnvOffsetBasis
      for c in str:
          hash = hash ^ ord(c)
          hash = hash * fnvPrime & 0xffffffff
      sanity_check = '    ASSERT_EQ(0x{hash}u, ImmutableString("{str}").hash32());'.format(...)
      script_generated_hash_tests.update({sanity_check: None})
      return hash
  \<close>
  In Python \<open>*\<close> binds tighter than \<open>&\<close>. \<open>hash32\<close> is the returned value and
  \<open>hash32_sanity_check\<close> the assertion text that the call records as a key of the ordered
  dictionary \<open>script_generated_hash_tests\<close>.
\<close>

definition fnvOffsetBasis :: int where
  "fnvOffsetBasis = 0x811c9dc5"

definition fnvPrime :: int where
  "fnvPrime = 16777619"

fun hash32_loop :: "int \<Rightarrow> string \<Rightarrow> int" where
  "hash32_loop h [] = h"
| "hash32_loop h (c # cs) = hash32_loop (((h XOR ord c) * fnvPrime) AND 0xffffffff) cs"

definition hash32 :: "string \<Rightarrow> int" where
  "hash32 str = hash32_loop fnvOffsetBasis str"

definition hash32_sanity_check :: "string \<Rightarrow> string" where
  "hash32_sanity_check str =
     ''    ASSERT_EQ(0x'' @ hex_nat (nat (hash32 str)) @ ''u, ImmutableString(\"'' @ str
       @ ''\").hash32());''"

text \<open>
  The algorithm as the specification words it: FNV-1a on 32-bit words, starting from the
  offset basis, XORing in one byte and multiplying by the prime (modulo \<open>2 ^ 32\<close>) per
  character. This definition follows the specification, not the script.
\<close>

definition fnv1a_step :: "32 word \<Rightarrow> char \<Rightarrow> 32 word" where
  "fnv1a_step h c = (h XOR of_char c) * 16777619"

definition fnv1a_32 :: "string \<Rightarrow> 32 word" where
  "fnv1a_32 s = foldl fnv1a_step 0x811c9dc5 s"

section \<open>The type model\<close>

text \<open>
  \<open>basic_mangled_names\<close>: the table from a basic kind to its code in mangled names.
  \<open>Void\<close> has no entry.
\<close>

definition basic_mangled_names :: "(string \<times> string) list" where
  "basic_mangled_names =
    [(''Float'', ''f''), (''Int'', ''i''), (''UInt'', ''u''), (''Bool'', ''b''),
     (''YuvCscStandardEXT'', ''y''),
     (''Sampler2D'', ''s2''), (''Sampler3D'', ''s3''), (''SamplerCube'', ''sC''),
     (''Sampler2DArray'', ''sA''), (''SamplerExternalOES'', ''sX''),
     (''SamplerExternal2DY2YEXT'', ''sY''), (''Sampler2DRect'', ''sR''),
     (''Sampler2DMS'', ''sM''),
     (''ISampler2D'', ''is2''), (''ISampler3D'', ''is3''), (''ISamplerCube'', ''isC''),
     (''ISampler2DArray'', ''isA''), (''ISampler2DMS'', ''isM''),
     (''USampler2D'', ''us2''), (''USampler3D'', ''us3''), (''USamplerCube'', ''usC''),
     (''USampler2DArray'', ''usA''), (''USampler2DMS'', ''usM''),
     (''Sampler2DShadow'', ''s2s''), (''SamplerCubeShadow'', ''sCs''),
     (''Sampler2DArrayShadow'', ''sAs''),
     (''Image2D'', ''I2''), (''IImage2D'', ''iI2''), (''UImage2D'', ''uI2''),
     (''Image3D'', ''I3''), (''IImage3D'', ''iI3''), (''UImage3D'', ''uI3''),
     (''Image2DArray'', ''IA''), (''IImage2DArray'', ''iIA''), (''UImage2DArray'', ''uIA''),
     (''ImageCube'', ''Ic''), (''IImageCube'', ''iIc''), (''UImageCube'', ''uIc''),
     (''AtomicCounter'', ''a'')]"

definition levels :: "string list" where
  "levels = [''ESSL3_1_BUILTINS'', ''ESSL3_BUILTINS'', ''ESSL1_BUILTINS'', ''COMMON_BUILTINS'']"

text \<open>
  A \<open>TType\<close> holds a dictionary \<open>data\<close>. \<open>type_dict\<close> is the dictionary as \<open>parse_type\<close>
  and the two specialisations build it (every key optional); \<open>ttype\<close> is the dictionary
  after \<open>normalize\<close>, where \<open>primarySize\<close>, \<open>secondarySize\<close>, \<open>precision\<close> and
  \<open>qualifier\<close> are always present, so the test \<open>'qualifier' in param.data\<close> of the script
  is always true on it. \<open>basic\<close> and \<open>genType\<close> stay optional.
\<close>

record type_dict =
  d_basic :: "string option"
  d_primarySize :: "int option"
  d_secondarySize :: "int option"
  d_precision :: "string option"
  d_qualifier :: "string option"
  d_genType :: "string option"

record ttype =
  basic :: "string option"
  primarySize :: int
  secondarySize :: int
  precision :: string
  qualifier :: string
  genType :: "string option"

definition empty_dict :: type_dict where
  "empty_dict = \<lparr>d_basic = None, d_primarySize = None, d_secondarySize = None,
                  d_precision = None, d_qualifier = None, d_genType = None\<rparr>"

definition normalize :: "type_dict \<Rightarrow> error + ttype" where
  "normalize d =
     (if d_primarySize d = None \<and> d_secondarySize d \<noteq> None then Inl UnexpectedSecondarySize
      else Inr \<lparr>basic = d_basic d,
                primarySize = (case d_primarySize d of None \<Rightarrow> 1 | Some n \<Rightarrow> n),
                secondarySize = (case d_secondarySize d of None \<Rightarrow> 1 | Some n \<Rightarrow> n),
                precision = (case d_precision d of None \<Rightarrow> ''Undefined'' | Some p \<Rightarrow> p),
                qualifier = (case d_qualifier d of None \<Rightarrow> ''Global'' | Some q \<Rightarrow> q),
                genType = d_genType d\<rparr>)"

subsection \<open>Parsing a type token\<close>

definition upper_char :: "char \<Rightarrow> char" where
  "upper_char c = (let n = (of_char c :: nat) in if 97 \<le> n \<and> n \<le> 122 then char_of (n - 32) else c)"

definition lower_char :: "char \<Rightarrow> char" where
  "lower_char c = (let n = (of_char c :: nat) in if 65 \<le> n \<and> n \<le> 90 then char_of (n + 32) else c)"

text \<open>
  The three regular expressions, each anchored at both ends. \<open>$\<close> of Python's \<open>re\<close>
  matches at the end of the string and also just before a newline that ends it.
  \<open>opt_class\<close> is an optional character class \<open>[...]?\<close>: it consumes the first character
  when that character is in the class (greedy; backing off never helps in these patterns,
  since the literal that follows is not in the class).
\<close>

definition re_end :: "string \<Rightarrow> bool" where
  "re_end s = (s = [] \<or> s = [CHR 0x0A])"

definition opt_class :: "string \<Rightarrow> string \<Rightarrow> string \<times> string" where
  "opt_class cls s =
     (case s of [] \<Rightarrow> ([], s) | c # r \<Rightarrow> if c \<in> set cls then ([c], r) else ([], s))"

text \<open>\<open>^([iub]?)vec([234]?)$\<close>, giving groups 1 and 2.\<close>

definition vec_re_match :: "string \<Rightarrow> (string \<times> string) option" where
  "vec_re_match s =
     (case opt_class ''iub'' s of (g1, r1) \<Rightarrow>
        if startswith r1 ''vec'' then
          (case opt_class ''234'' (drop 3 r1) of (g2, r2) \<Rightarrow>
             if re_end r2 then Some (g1, g2) else None)
        else None)"

text \<open>\<open>^mat([234])(x([234]))?$\<close>, giving group 1 and group 3 (\<open>None\<close> when it took no part).\<close>

definition mat_re_match :: "string \<Rightarrow> (char \<times> char option) option" where
  "mat_re_match s =
     (if startswith s ''mat'' then
        (case drop 3 s of
           [] \<Rightarrow> None
         | d # r \<Rightarrow>
             if d \<in> set ''234'' then
               (case r of
                  x # d2 # r2 \<Rightarrow>
                    if x = CHR ''x'' \<and> d2 \<in> set ''234'' \<and> re_end r2 then Some (d, Some d2)
                    else if re_end r then Some (d, None) else None
                | _ \<Rightarrow> if re_end r then Some (d, None) else None)
             else None)
      else None)"

text \<open>\<open>^gen([IUB]?)Type$\<close>, giving group 1.\<close>

definition gen_re_match :: "string \<Rightarrow> string option" where
  "gen_re_match s =
     (if startswith s ''gen'' then
        (case opt_class ''IUB'' (drop 3 s) of (g1, r1) \<Rightarrow>
           if startswith r1 ''Type'' \<and> re_end (drop 4 r1) then Some g1 else None)
      else None)"

text \<open>\<open>int(c)\<close> of a one-digit string.\<close>

definition int_of_digit :: "char \<Rightarrow> int" where
  "int_of_digit c = int (of_char c) - 48"

definition basic_type_map :: "(string \<times> string) list" where
  "basic_type_map =
     [(''float'', ''Float''), (''int'', ''Int''), (''uint'', ''UInt''), (''bool'', ''Bool''),
      (''void'', ''Void''), (''atomic_uint'', ''AtomicCounter''),
      (''yuvCscStandardEXT'', ''YuvCscStandardEXT'')]"

definition basic_type_prefix_map :: "(string \<times> string) list" where
  "basic_type_prefix_map =
     [('''', ''Float''), (''i'', ''Int''), (''u'', ''UInt''), (''b'', ''Bool''), (''v'', ''Void'')]"

text \<open>
  \<open>parse_type\<close>, the rules in the script's order. The recursion strips an \<open>out\<close> or
  \<open>inout\<close> prefix, so the string gets shorter.
\<close>

function parse_type :: "string \<Rightarrow> error + type_dict" where
  "parse_type glsl_header_type =
     (if startswith glsl_header_type ''out '' then
        (case parse_type (drop 4 glsl_header_type) of
           Inl e \<Rightarrow> Inl e
         | Inr type_obj \<Rightarrow> Inr (type_obj\<lparr>d_qualifier := Some ''Out''\<rparr>))
      else if startswith glsl_header_type ''inout '' then
        (case parse_type (drop 6 glsl_header_type) of
           Inl e \<Rightarrow> Inl e
         | Inr type_obj \<Rightarrow> Inr (type_obj\<lparr>d_qualifier := Some ''InOut''\<rparr>))
      else
        (case map_of basic_type_map glsl_header_type of
           Some b \<Rightarrow> Inr (empty_dict\<lparr>d_basic := Some b\<rparr>)
         | None \<Rightarrow>
        (case vec_re_match glsl_header_type of
           Some (g1, g2) \<Rightarrow>
             (case map_of basic_type_prefix_map g1 of
                None \<Rightarrow> Inl (KeyError g1)
              | Some b \<Rightarrow>
                  (case g2 of
                     [] \<Rightarrow> Inr (empty_dict\<lparr>d_basic := Some b, d_genType := Some ''vec''\<rparr>)
                   | c # _ \<Rightarrow>
                       Inr (empty_dict\<lparr>d_basic := Some b, d_primarySize := Some (int_of_digit c)\<rparr>)))
         | None \<Rightarrow>
        (case mat_re_match glsl_header_type of
           Some (g1, g3) \<Rightarrow>
             (if length glsl_header_type = 4 then
                Inr (empty_dict\<lparr>d_basic := Some ''Float'',
                                 d_primarySize := Some (int_of_digit g1),
                                 d_secondarySize := Some (int_of_digit g1)\<rparr>)
              else
                (case g3 of
                   None \<Rightarrow> Inl TypeError
                 | Some c3 \<Rightarrow>
                     Inr (empty_dict\<lparr>d_basic := Some ''Float'',
                                      d_primarySize := Some (int_of_digit g1),
                                      d_secondarySize := Some (int_of_digit c3)\<rparr>)))
         | None \<Rightarrow>
        (case gen_re_match glsl_header_type of
           Some g1 \<Rightarrow>
             (case map_of basic_type_prefix_map (map lower_char g1) of
                None \<Rightarrow> Inl (KeyError (map lower_char g1))
              | Some b \<Rightarrow> Inr (empty_dict\<lparr>d_basic := Some b, d_genType := Some ''yes''\<rparr>))
         | None \<Rightarrow>
        (if startswith glsl_header_type ''sampler'' then
           Inr (empty_dict\<lparr>d_basic :=
                  Some (upper_char (hd glsl_header_type) # drop 1 glsl_header_type)\<rparr>)
         else if startswith glsl_header_type ''gsampler'' \<or> startswith glsl_header_type ''gimage'' then
           Inr (empty_dict\<lparr>d_basic :=
                  Some (upper_char (glsl_header_type ! 1) # drop 2 glsl_header_type),
                  d_genType := Some ''sampler_or_image''\<rparr>)
         else if glsl_header_type = ''gvec4'' then
           Inr (empty_dict\<lparr>d_primarySize := Some 4, d_genType := Some ''sampler_or_image''\<rparr>)
         else if glsl_header_type = ''gvec3'' then
           Inr (empty_dict\<lparr>d_primarySize := Some 3, d_genType := Some ''sampler_or_image''\<rparr>)
         else Inl (UnrecognizedType glsl_header_type)))))))"
  by pat_completeness auto
termination
  by (relation "measure length") (auto simp: startswith_def dest: arg_cong [where f = length])

declare parse_type.simps [simp del]

text \<open>
  \<open>TType(x)\<close>: from a token (\<open>TType_of_string\<close>), parsed and normalised, or from a
  dictionary (\<open>TType_of_dict\<close>), normalised.
\<close>

definition TType_of_dict :: "type_dict \<Rightarrow> error + ttype" where
  "TType_of_dict d = normalize d"

definition TType_of_string :: "string \<Rightarrow> error + ttype" where
  "TType_of_string s = (case parse_type s of Inl e \<Rightarrow> Inl e | Inr d \<Rightarrow> normalize d)"

subsection \<open>Queries, mangled token, specialisation\<close>

definition is_vector :: "ttype \<Rightarrow> bool" where
  "is_vector t = (primarySize t > 1 \<and> secondarySize t = 1)"

definition is_matrix :: "ttype \<Rightarrow> bool" where
  "is_matrix t = (secondarySize t > 1)"

definition get_statictype_string :: "ttype \<Rightarrow> error + string" where
  "get_statictype_string t =
     (case basic t of
        None \<Rightarrow> Inl (KeyError ''basic'')
      | Some b \<Rightarrow>
          Inr (''StaticType::Get<Ebt'' @ b @ '', Ebp'' @ precision t @ '', Evq'' @ qualifier t
               @ '', '' @ str_int (primarySize t) @ '', '' @ str_int (secondarySize t) @ ''>()''))"

text \<open>
  \<open>get_mangled_name(separator)\<close>: the sizes, the code of the basic kind, the separator.
  A type without \<open>basic\<close>, or with a basic kind that the table does not have, raises
  \<open>KeyError\<close>.
\<close>

definition size_prefix :: "ttype \<Rightarrow> string" where
  "size_prefix t =
     (if is_matrix t then str_int (primarySize t) @ str_int (secondarySize t)
      else if primarySize t > 1 then str_int (primarySize t)
      else '''')"

definition get_mangled_name :: "ttype \<Rightarrow> string \<Rightarrow> error + string" where
  "get_mangled_name t separator =
     (case basic t of
        None \<Rightarrow> Inl (KeyError ''basic'')
      | Some b \<Rightarrow>
          (case map_of basic_mangled_names b of
             None \<Rightarrow> Inl (KeyError b)
           | Some code \<Rightarrow> Inr (size_prefix t @ code @ separator)))"

definition specific_sampler_or_image_type :: "ttype \<Rightarrow> string \<Rightarrow> error + ttype" where
  "specific_sampler_or_image_type t basic_type_prefix =
     (if genType t \<noteq> None then
        (case basic t of
           None \<Rightarrow>
             (case map_of [('''', ''Float''), (''I'', ''Int''), (''U'', ''UInt'')] basic_type_prefix of
                None \<Rightarrow> Inl (KeyError basic_type_prefix)
              | Some b \<Rightarrow>
                  TType_of_dict (empty_dict\<lparr>d_basic := Some b,
                                            d_primarySize := Some (primarySize t),
                                            d_precision := Some ''Undefined''\<rparr>))
         | Some b \<Rightarrow>
             TType_of_dict (empty_dict\<lparr>d_basic := Some (basic_type_prefix @ b),
                                       d_primarySize := Some 1,
                                       d_precision := Some ''Undefined''\<rparr>))
      else Inr t)"

definition specific_type :: "ttype \<Rightarrow> int \<Rightarrow> error + ttype" where
  "specific_type t vec_size =
     (if genType t \<noteq> None then
        (case basic t of
           None \<Rightarrow> Inl (KeyError ''basic'')
         | Some b \<Rightarrow>
             TType_of_dict (empty_dict\<lparr>d_basic := Some b,
                                       d_precision := Some (precision t),
                                       d_qualifier := Some (qualifier t),
                                       d_primarySize := Some vec_size,
                                       d_secondarySize := Some 1\<rparr>))
      else Inr t)"


section \<open>Function declarations and their variants\<close>

text \<open>
  A function declaration is the dictionary \<open>function_props\<close>: \<open>name\<close>, \<open>returnType\<close> and
  \<open>parameters\<close> are set by the parser, the other keys come from the metadata and may be
  absent. \<open>hasSideEffects\<close> is only tested for presence.
\<close>

record function_props =
  name :: string
  returnType :: ttype
  parameters :: "ttype list"
  level :: "string option"
  extension :: "string option"
  op :: "string option"
  hasSideEffects :: bool
  suffix :: "string option"

definition get_suffix :: "function_props \<Rightarrow> string" where
  "get_suffix props = (case suffix props of Some s \<Rightarrow> s | None \<Rightarrow> '''')"

definition get_extension :: "function_props \<Rightarrow> string" where
  "get_extension props = (case extension props of Some e \<Rightarrow> e | None \<Rightarrow> ''UNDEFINED'')"

definition get_op :: "string \<Rightarrow> function_props \<Rightarrow> error + string" where
  "get_op nm function_props =
     (case op function_props of
        None \<Rightarrow> Inl FunctionOpNotDefined
      | Some o' \<Rightarrow>
          if o' = ''auto'' then
            (case nm of [] \<Rightarrow> Inl IndexError | c # cs \<Rightarrow> Inr (upper_char c # cs))
          else Inr o')"

definition get_parameters :: "function_props \<Rightarrow> ttype list" where
  "get_parameters function_props = parameters function_props"

definition get_known_to_not_have_side_effects :: "function_props \<Rightarrow> string" where
  "get_known_to_not_have_side_effects function_props =
     (if op function_props \<noteq> None \<and> op function_props \<noteq> Some ''CallBuiltInFunction'' then
        (if hasSideEffects function_props then ''false''
         else if \<exists>param \<in> set (get_parameters function_props).
                   qualifier param = ''Out'' \<or> qualifier param = ''InOut''
              then ''false'' else ''true'')
      else ''false'')"

definition get_function_mangled_name :: "string \<Rightarrow> ttype list \<Rightarrow> error + string" where
  "get_function_mangled_name function_name params =
     (case map_err (\<lambda>param. get_mangled_name param '';'') params of
        Inl e \<Rightarrow> Inl e
      | Inr tokens \<Rightarrow> Inr (function_name @ ''('' @ concat tokens))"

definition get_unique_identifier_name :: "string \<Rightarrow> ttype list \<Rightarrow> error + string" where
  "get_unique_identifier_name function_name params =
     (case map_err (\<lambda>param. get_mangled_name param ''_'') params of
        Inl e \<Rightarrow> Inl e
      | Inr tokens \<Rightarrow> Inr (function_name @ ''_'' @ concat tokens))"

definition qualifier_marker :: "ttype \<Rightarrow> string" where
  "qualifier_marker param =
     (if qualifier param = ''Out'' then ''o_'' else '''')
     @ (if qualifier param = ''InOut'' then ''io_'' else '''')"

definition get_variable_name_to_store_parameters :: "ttype list \<Rightarrow> error + string" where
  "get_variable_name_to_store_parameters params =
     (if length params = 0 then Inr ''empty''
      else
        (case map_err (\<lambda>param.
                 case get_mangled_name param ''_'' of
                   Inl e \<Rightarrow> Inl e
                 | Inr token \<Rightarrow> Inr (qualifier_marker param @ token)) params of
           Inl e \<Rightarrow> Inl e
         | Inr tokens \<Rightarrow> Inr (''p_'' @ concat tokens)))"

subsection \<open>Variant expansion\<close>

text \<open>
  The first loop of \<open>gen_function_variants\<close>: it runs over the parameters only and keeps
  the set \<open>gen_type\<close> of the tags seen, here a list without repetitions.
\<close>

fun collect_gen_type :: "ttype list \<Rightarrow> string list \<Rightarrow> error + string list" where
  "collect_gen_type [] gen_type = Inr gen_type"
| "collect_gen_type (param # params) gen_type =
     (case genType param of
        None \<Rightarrow> collect_gen_type params gen_type
      | Some g \<Rightarrow>
          if g \<notin> set [''sampler_or_image'', ''vec'', ''yes''] then Inl (UnexpectedGenType g)
          else
            (let gen_type' = List.insert g gen_type in
             if length gen_type' > 1 then Inl MultipleGenTypes
             else collect_gen_type params gen_type'))"

definition sampler_variant :: "function_props \<Rightarrow> string \<Rightarrow> error + function_props" where
  "sampler_variant function_props type =
     (case map_err (\<lambda>param. specific_sampler_or_image_type param type)
             (get_parameters function_props) of
        Inl e \<Rightarrow> Inl e
      | Inr variant_parameters \<Rightarrow>
          (case specific_sampler_or_image_type (returnType function_props) type of
             Inl e \<Rightarrow> Inl e
           | Inr rt \<Rightarrow> Inr (function_props\<lparr>parameters := variant_parameters, returnType := rt\<rparr>)))"

definition size_variant :: "function_props \<Rightarrow> int \<Rightarrow> error + function_props" where
  "size_variant function_props sz =
     (case map_err (\<lambda>param. specific_type param sz) (get_parameters function_props) of
        Inl e \<Rightarrow> Inl e
      | Inr variant_parameters \<Rightarrow>
          (case specific_type (returnType function_props) sz of
             Inl e \<Rightarrow> Inl e
           | Inr rt \<Rightarrow> Inr (function_props\<lparr>parameters := variant_parameters, returnType := rt\<rparr>)))"

definition gen_function_variants :: "string \<Rightarrow> function_props \<Rightarrow> error + function_props list" where
  "gen_function_variants function_name function_props =
     (case collect_gen_type (get_parameters function_props) [] of
        Inl e \<Rightarrow> Inl e
      | Inr gen_type \<Rightarrow>
          if length gen_type = 0 then Inr [function_props]
          else if ''sampler_or_image'' \<in> set gen_type then
            map_err (sampler_variant function_props) ['''', ''I'', ''U'']
          else
            map_err (size_variant function_props)
              (if ''vec'' \<in> set gen_type then [2, 3, 4] else [1, 2, 3, 4]))"

section \<open>The generator state\<close>

text \<open>
  \<open>GroupedList\<close>: an ordered dictionary from level to an ordered dictionary from condition
  to an ordered dictionary from name to object. Ordered dictionaries are association
  lists: \<open>map_of\<close> reads a key, \<open>AList.update\<close> overwrites it in place or appends it.
\<close>

record unmangled =
  code :: string
  u_extension :: string

type_synonym grouped_list = "(string \<times> (string \<times> (string \<times> unmangled) list) list) list"

definition GroupedList_init :: grouped_list where
  "GroupedList_init = map (\<lambda>l. (l, [])) levels"

definition add_obj :: "grouped_list \<Rightarrow> string \<Rightarrow> string \<Rightarrow> string \<Rightarrow> unmangled \<Rightarrow> error + grouped_list" where
  "add_obj objs lvl condition nm obj =
     (if lvl \<notin> set levels then Inl (UnexpectedLevel lvl)
      else
        (case map_of objs lvl of
           None \<Rightarrow> Inl (KeyError lvl)
         | Some conds \<Rightarrow>
             (let names = (case map_of conds condition of None \<Rightarrow> [] | Some ns \<Rightarrow> ns)
              in Inr (AList.update lvl
                        (AList.update condition (AList.update nm obj names) conds) objs))))"

definition has_key :: "grouped_list \<Rightarrow> string \<Rightarrow> string \<Rightarrow> string \<Rightarrow> error + bool" where
  "has_key objs lvl condition nm =
     (if lvl \<notin> set levels then Inl (UnexpectedLevel lvl)
      else
        (case map_of objs lvl of
           None \<Rightarrow> Inl (KeyError lvl)
         | Some conds \<Rightarrow>
             (case map_of conds condition of
                None \<Rightarrow> Inr False
              | Some names \<Rightarrow> Inr (map_of names nm \<noteq> None))))"

definition get :: "grouped_list \<Rightarrow> string \<Rightarrow> string \<Rightarrow> string \<Rightarrow> error + unmangled option" where
  "get objs lvl condition nm =
     (case has_key objs lvl condition nm of
        Inl e \<Rightarrow> Inl e
      | Inr False \<Rightarrow> Inr None
      | Inr True \<Rightarrow>
          (case map_of objs lvl of
             None \<Rightarrow> Inl (KeyError lvl)
           | Some conds \<Rightarrow>
               (case map_of conds condition of
                  None \<Rightarrow> Inl (KeyError condition)
                | Some names \<Rightarrow>
                    (case map_of names nm of
                       None \<Rightarrow> Inl (KeyError nm)
                     | Some obj \<Rightarrow> Inr (Some obj)))))"

text \<open>
  The module-level variables that the processing mutates. \<open>builtin_id_declarations\<close> keeps,
  for each declaration line, the two values that the template
  \<open>static constexpr const TSymbolUniqueId {unique_name} = TSymbolUniqueId({id});\<close>
  is filled with; \<open>format_builtin_id_declaration\<close> renders the line.
\<close>

record state =
  id_counter :: int
  defined_function_variants :: "string set"
  builtin_id_declarations :: "(string \<times> int) list"
  name_declarations :: "string set"
  parameter_declarations :: "string set"
  function_declarations :: "string list"
  insert_functions_by_condition :: "(string \<times> string list) list"
  unmangled_builtin_declarations :: "string set"
  unmangled_function_if_statements :: grouped_list

definition init_state :: state where
  "init_state = \<lparr>id_counter = 0, defined_function_variants = {},
                  builtin_id_declarations = [], name_declarations = {},
                  parameter_declarations = {}, function_declarations = [],
                  insert_functions_by_condition = [],
                  unmangled_builtin_declarations = {},
                  unmangled_function_if_statements = GroupedList_init\<rparr>"

definition format_builtin_id_declaration :: "string \<times> int \<Rightarrow> string" where
  "format_builtin_id_declaration d =
     ''    static constexpr const TSymbolUniqueId '' @ fst d @ '' = TSymbolUniqueId(''
       @ str_int (snd d) @ '');''"

record template_args =
  ta_name :: string
  ta_name_with_suffix :: string
  ta_level :: string
  ta_extension :: string
  ta_op :: string
  ta_known_to_not_have_side_effects :: string

section \<open>Processing a group of functions\<close>

text \<open>The templates that \<open>format\<close> fills in, one definition each.\<close>

definition template_name_declaration :: "string \<Rightarrow> string \<Rightarrow> string" where
  "template_name_declaration ident text =
     ''constexpr const ImmutableString '' @ ident @ ''(\"'' @ text @ ''\");''"

definition template_unmangled_builtin_declaration :: "string \<Rightarrow> string" where
  "template_unmangled_builtin_declaration ext =
     ''constexpr const UnmangledBuiltIn '' @ ext @ ''(TExtension::'' @ ext @ '');''"

definition template_parameter_list_declaration :: "string \<Rightarrow> string \<Rightarrow> string \<Rightarrow> string" where
  "template_parameter_list_declaration parameters_var_name param_count parameters_list =
     ''constexpr const TConstParameter '' @ parameters_var_name @ ''['' @ param_count
       @ ''] = { '' @ parameters_list @ '' };''"

definition template_parameter_null_declaration :: "string \<Rightarrow> string" where
  "template_parameter_null_declaration parameters_var_name =
     ''constexpr const TConstParameter *'' @ parameters_var_name @ '' = nullptr;''"

definition template_function_declaration :: "template_args \<Rightarrow> string \<Rightarrow> string \<Rightarrow> string \<Rightarrow> string \<Rightarrow> string" where
  "template_function_declaration targs unique_name parameters_var_name param_count return_type =
     ''constexpr const TFunction kFunction_'' @ unique_name @ ''(BuiltInId::''
       @ unique_name @ '', BuiltInName::'' @ ta_name_with_suffix targs
       @ '', TExtension::'' @ ta_extension targs @ '', BuiltInParameters::''
       @ parameters_var_name @ '', '' @ param_count @ '', '' @ return_type
       @ '', BuiltInName::'' @ unique_name @ '', EOp'' @ ta_op targs @ '', ''
       @ ta_known_to_not_have_side_effects targs @ '');''"

definition template_insert_function :: "string \<Rightarrow> string \<Rightarrow> string" where
  "template_insert_function lvl unique_name =
     ''    insertBuiltIn('' @ lvl @ '', &BuiltInFunction::kFunction_'' @ unique_name @ '');''"

text \<open>
  Lines 597 to 609 of the script: the record of the unmangled name. \<open>condition\<close> is the
  condition of the group being processed.
\<close>

definition unmangled_if :: "template_args \<Rightarrow> string" where
  "unmangled_if targs =
     ''if (name == BuiltInName::'' @ ta_name_with_suffix targs @ '')'' @ [CHR 0x0A]
       @ ''{'' @ [CHR 0x0A]
       @ ''    return &UnmangledBuiltIns::'' @ ta_extension targs @ '';'' @ [CHR 0x0A]
       @ ''}''"

definition add_unmangled :: "string \<Rightarrow> template_args \<Rightarrow> state \<Rightarrow> error + state" where
  "add_unmangled condition targs st =
     (case get (unmangled_function_if_statements st) (ta_level targs) ''NO_CONDITION''
             (ta_name targs) of
        Inl e \<Rightarrow> Inl e
      | Inr unmangled_builtin_no_condition \<Rightarrow>
          if unmangled_builtin_no_condition \<noteq> None
             \<and> map_option u_extension unmangled_builtin_no_condition = Some ''UNDEFINED''
          then Inr st
          else
            (case has_key (unmangled_function_if_statements st) (ta_level targs) condition
                    (ta_name targs) of
               Inl e \<Rightarrow> Inl e
             | Inr present \<Rightarrow>
                 if \<not> present \<or> ta_extension targs = ''UNDEFINED'' then
                   (case add_obj (unmangled_function_if_statements st) (ta_level targs)
                           condition (ta_name targs)
                           \<lparr>code = unmangled_if targs, u_extension = ta_extension targs\<rparr> of
                      Inl e \<Rightarrow> Inl e
                    | Inr objs \<Rightarrow>
                        Inr (st\<lparr>unmangled_function_if_statements := objs,
                                unmangled_builtin_declarations :=
                                  insert (template_unmangled_builtin_declaration
                                            (ta_extension targs))
                                    (unmangled_builtin_declarations st)\<rparr>))
                 else Inr st))"

text \<open>
  The body of the loop over the variants of one declaration (lines 611 to 651). A variant
  whose unique name is already in \<open>defined_function_variants\<close> is skipped.
\<close>

definition process_variant :: "string \<Rightarrow> template_args \<Rightarrow> function_props \<Rightarrow> state \<Rightarrow> error + state" where
  "process_variant condition targs function_props st =
     (let ident = id_counter st;
          params = get_parameters function_props
      in case get_unique_identifier_name (ta_name_with_suffix targs) params of
           Inl e \<Rightarrow> Inl e
         | Inr unique_name \<Rightarrow>
      if unique_name \<in> defined_function_variants st then Inr st
      else
        (let param_count = str_int (int (length params))
         in case get_statictype_string (returnType function_props) of
              Inl e \<Rightarrow> Inl e
            | Inr return_type \<Rightarrow>
        (case get_function_mangled_name (ta_name targs) params of
              Inl e \<Rightarrow> Inl e
            | Inr mangled_name \<Rightarrow>
        (case map_err (\<lambda>param.
                 case get_statictype_string param of
                   Inl e \<Rightarrow> Inl e
                 | Inr param_type \<Rightarrow> Inr (''TConstParameter('' @ param_type @ '')'')) params of
              Inl e \<Rightarrow> Inl e
            | Inr parameters_list \<Rightarrow>
        (case get_variable_name_to_store_parameters params of
              Inl e \<Rightarrow> Inl e
            | Inr parameters_var_name \<Rightarrow>
        (case map_of (insert_functions_by_condition st) condition of
              None \<Rightarrow> Inl (KeyError condition)
            | Some insert_functions \<Rightarrow>
        Inr (st\<lparr>defined_function_variants := insert unique_name (defined_function_variants st),
                builtin_id_declarations := builtin_id_declarations st @ [(unique_name, ident)],
                name_declarations :=
                  insert (template_name_declaration unique_name mangled_name)
                    (name_declarations st),
                parameter_declarations :=
                  insert (if length params > 0 then
                            template_parameter_list_declaration parameters_var_name param_count
                              (join '', '' parameters_list)
                          else template_parameter_null_declaration parameters_var_name)
                    (parameter_declarations st),
                function_declarations := function_declarations st @
                  [template_function_declaration targs unique_name parameters_var_name
                     param_count return_type],
                insert_functions_by_condition :=
                  AList.update condition
                    (insert_functions @ [template_insert_function (ta_level targs) unique_name])
                    (insert_functions_by_condition st),
                id_counter := id_counter st + 1\<rparr>)))))))"

text \<open>The body of the loop over the declarations of a group (lines 577 to 651).\<close>

definition process_function :: "string \<Rightarrow> function_props \<Rightarrow> state \<Rightarrow> error + state" where
  "process_function condition function_props st =
     (let function_name = name function_props
      in case level function_props of
           None \<Rightarrow> Inl (KeyError ''level'')
         | Some lvl \<Rightarrow>
      (case get_op function_name function_props of
           Inl e \<Rightarrow> Inl e
         | Inr op_name \<Rightarrow>
      (let targs = \<lparr>ta_name = function_name,
                    ta_name_with_suffix = function_name @ get_suffix function_props,
                    ta_level = lvl,
                    ta_extension = get_extension function_props,
                    ta_op = op_name,
                    ta_known_to_not_have_side_effects =
                      get_known_to_not_have_side_effects function_props\<rparr>
       in case gen_function_variants function_name function_props of
            Inl e \<Rightarrow> Inl e
          | Inr function_variants \<Rightarrow>
       (let st1 = st\<lparr>name_declarations :=
                       insert (template_name_declaration (ta_name_with_suffix targs)
                                 (ta_name targs)) (name_declarations st)\<rparr>
        in case add_unmangled condition targs st1 of
             Inl e \<Rightarrow> Inl e
           | Inr st2 \<Rightarrow> fold_err (process_variant condition targs) function_variants st2))))"

text \<open>
  A group: its declarations, its name, its subgroups and, from its metadata, its
  condition. The parser gives every group the keys \<open>functions\<close> and \<open>subgroups\<close>, so
  the tests for their presence always succeed. The dictionary of subgroups is a plain \<open>dict\<close>, whose iteration order Python
  does not fix: the list gives the order in which \<open>process_function_group\<close> visits them,
  and the theorems hold for every order.
\<close>

datatype group =
  Group (g_functions: "function_props list") (g_name: string)
        (g_subgroups: "(string \<times> group) list") (g_condition: "string option")

definition process_single_function_group :: "string \<Rightarrow> string \<Rightarrow> group \<Rightarrow> state \<Rightarrow> error + state" where
  "process_single_function_group condition group_name grp st =
     fold_err (process_function condition) (g_functions grp) st"

fun process_function_group :: "string \<Rightarrow> group \<Rightarrow> state \<Rightarrow> error + state"
  and process_subgroups :: "(string \<times> group) list \<Rightarrow> state \<Rightarrow> error + state" where
  "process_function_group group_name (Group fs nm subs cond) st =
     (let condition = (case cond of None \<Rightarrow> ''NO_CONDITION'' | Some c \<Rightarrow> c);
          st1 = (if map_of (insert_functions_by_condition st) condition = None
                 then st\<lparr>insert_functions_by_condition :=
                           insert_functions_by_condition st @ [(condition, [])]\<rparr>
                 else st)
      in case process_single_function_group condition group_name (Group fs nm subs cond) st1 of
           Inl e \<Rightarrow> Inl e
         | Inr st2 \<Rightarrow> process_subgroups subs st2)"
| "process_subgroups [] st = Inr st"
| "process_subgroups (sub # rest) st =
     (case process_function_group (fst sub) (snd sub) st of
        Inl e \<Rightarrow> Inl e
      | Inr st' \<Rightarrow> process_subgroups rest st')"

text \<open>
  The loop over the top-level groups, and the value \<open>last_static_builtin_id\<close> that
  \<open>output_strings\<close> records once it has ended.
\<close>

definition process_all :: "(string \<times> group) list \<Rightarrow> error + state" where
  "process_all parsed_functions = process_subgroups parsed_functions init_state"

definition last_static_builtin_id :: "state \<Rightarrow> int" where
  "last_static_builtin_id st = id_counter st - 1"


section \<open>The declaration parser\<close>

text \<open>
  Metadata is JSON text read by \<open>json.loads\<close>, a library function outside the
  repository: the parser takes it as the parameter \<open>loads\<close>. The result is the dictionary
  that \<open>update\<close> merges into a group or into a declaration; \<open>metadata\<close> has the keys that
  the generator reads, each optional. A metadata dictionary with one of the structural
  keys (\<open>name\<close>, \<open>functions\<close>, \<open>subgroups\<close>, \<open>returnType\<close>, \<open>parameters\<close>) or with a
  value that is not text is outside this model.
\<close>

record metadata =
  md_level :: "string option"
  md_extension :: "string option"
  md_op :: "string option"
  md_hasSideEffects :: bool
  md_suffix :: "string option"
  md_condition :: "string option"

definition empty_metadata :: metadata where
  "empty_metadata = \<lparr>md_level = None, md_extension = None, md_op = None,
                       md_hasSideEffects = False, md_suffix = None, md_condition = None\<rparr>"

definition is_space :: "char \<Rightarrow> bool" where
  "is_space c = (c \<in> set [CHR '' '', CHR 0x09, CHR 0x0A, CHR 0x0B, CHR 0x0C, CHR 0x0D])"

definition strip :: "string \<Rightarrow> string" where
  "strip s = rev (dropWhile is_space (rev (dropWhile is_space s)))"

definition endswith :: "string \<Rightarrow> string \<Rightarrow> bool" where
  "endswith s p = (length p \<le> length s \<and> drop (length s - length p) s = p)"

text \<open>\<open>\w\<close> of Python 2's \<open>re\<close> without flags: letters, digits and the underscore.\<close>

definition is_word_char :: "char \<Rightarrow> bool" where
  "is_word_char c =
     (let n = (of_char c :: nat)
      in (48 \<le> n \<and> n \<le> 57) \<or> (65 \<le> n \<and> n \<le> 90) \<or> (97 \<le> n \<and> n \<le> 122) \<or> n = 95)"

text \<open>
  \<open>^(\w+) (\w+)\((.*)\);$\<close>, giving groups 1, 2 and 3. \<open>.\<close> does not match a newline,
  and \<open>$\<close> also matches before a newline that ends the line.
\<close>

definition fun_re_match :: "string \<Rightarrow> (string \<times> string \<times> string) option" where
  "fun_re_match s =
     (let g1 = takeWhile is_word_char s; r1 = dropWhile is_word_char s
      in if g1 = [] \<or> \<not> startswith r1 '' '' then None
         else
           (let r2 = drop 1 r1; g2 = takeWhile is_word_char r2; r3 = dropWhile is_word_char r2
            in if g2 = [] \<or> \<not> startswith r3 ''('' then None
               else
                 (let r4 = drop 1 r3;
                      r5 = (if endswith r4 [CHR 0x0A] then butlast r4 else r4);
                      g3 = take (length r5 - 2) r5
                  in if endswith r5 '');'' \<and> CHR 0x0A \<notin> set g3 then Some (g1, g2, g3)
                     else None)))"

text \<open>\<open>parameters.split(', ')\<close>; the first argument collects the current piece, reversed.\<close>

fun split_comma_space :: "string \<Rightarrow> string \<Rightarrow> string list" where
  "split_comma_space acc [] = [rev acc]"
| "split_comma_space acc (c # cs) =
     (case cs of
        [] \<Rightarrow> split_comma_space (c # acc) cs
      | d # ds \<Rightarrow>
          if c = CHR '','' \<and> d = CHR '' '' then rev acc # split_comma_space [] ds
          else split_comma_space (c # acc) cs)"

definition parse_function_parameters :: "string \<Rightarrow> error + ttype list" where
  "parse_function_parameters params =
     (if params = '''' then Inr []
      else map_err (\<lambda>parameter. TType_of_string (strip parameter))
             (split_comma_space [] params))"

text \<open>
  The state of the loop of \<open>get_parsed_functions\<close>. \<open>group_stack\<close> has its top at the
  head: \<open>group_stack[-1]\<close> is the head, \<open>append\<close> is \<open>#\<close>, \<open>pop\<close> drops the head. A group
  is referred to from the stack only until it is popped and is not changed afterwards,
  so groups are plain values here.
\<close>

record parser_state =
  parsed_functions :: "(string \<times> group) list"
  group_stack :: "group list"
  default_metadata :: metadata

definition init_parser_state :: parser_state where
  "init_parser_state = \<lparr>parsed_functions = [], group_stack = [], default_metadata = empty_metadata\<rparr>"

text \<open>The four kinds of lines, each the body of one branch of the loop.\<close>

definition group_begin :: "(string \<Rightarrow> error + metadata) \<Rightarrow> string \<Rightarrow> parser_state \<Rightarrow> error + parser_state" where
  "group_begin loads line ps =
     (let group_rest = strip (drop 12 line);
          group_name = takeWhile (\<lambda>c. c \<noteq> CHR '' '') group_rest;
          after = dropWhile (\<lambda>c. c \<noteq> CHR '' '') group_rest
      in if after = [] then
           Inr (ps\<lparr>group_stack := Group [] group_name [] None # group_stack ps\<rparr>)
         else
           (case loads (drop 1 after) of
              Inl e \<Rightarrow> Inl e
            | Inr group_metadata \<Rightarrow>
                Inr (ps\<lparr>group_stack :=
                        Group [] group_name [] (md_condition group_metadata) # group_stack ps\<rparr>)))"

definition group_end :: "string \<Rightarrow> parser_state \<Rightarrow> error + parser_state" where
  "group_end line ps =
     (let group_end_name = strip (drop 10 line)
      in case group_stack ps of
           [] \<Rightarrow> Inl IndexError
         | current_group # stack \<Rightarrow>
             if g_name current_group \<noteq> group_end_name then
               Inl (GroupEndMismatch group_end_name (g_name current_group))
             else
               (case stack of
                  [] \<Rightarrow>
                    Inr (ps\<lparr>group_stack := [],
                            parsed_functions :=
                              AList.update (g_name current_group) current_group
                                (parsed_functions ps),
                            default_metadata := empty_metadata\<rparr>)
                | super_group # stack' \<Rightarrow>
                    Inr (ps\<lparr>group_stack :=
                            Group (g_functions super_group) (g_name super_group)
                              (AList.update (g_name current_group) current_group
                                 (g_subgroups super_group))
                              (g_condition super_group) # stack'\<rparr>)))"

definition default_metadata_line :: "(string \<Rightarrow> error + metadata) \<Rightarrow> string \<Rightarrow> parser_state \<Rightarrow> error + parser_state" where
  "default_metadata_line loads line ps =
     (case loads (strip (drop 16 line)) of
        Inl e \<Rightarrow> Inl e
      | Inr md \<Rightarrow> Inr (ps\<lparr>default_metadata := md\<rparr>))"

definition function_line :: "string \<times> string \<times> string \<Rightarrow> parser_state \<Rightarrow> error + parser_state" where
  "function_line fun_match ps =
     (case fun_match of (return_type, nm, params) \<Rightarrow>
        (case TType_of_string return_type of
           Inl e \<Rightarrow> Inl e
         | Inr rt \<Rightarrow>
             (case parse_function_parameters params of
                Inl e \<Rightarrow> Inl e
              | Inr parms \<Rightarrow>
                  (let md = default_metadata ps;
                       function_props =
                         \<lparr>name = nm, returnType = rt, parameters = parms,
                          level = md_level md, extension = md_extension md,
                          op = md_op md, hasSideEffects = md_hasSideEffects md,
                          suffix = md_suffix md\<rparr>
                   in case group_stack ps of
                        [] \<Rightarrow> Inl IndexError
                      | g # stack \<Rightarrow>
                          Inr (ps\<lparr>group_stack :=
                                  Group (g_functions g @ [function_props]) (g_name g)
                                    (g_subgroups g) (g_condition g) # stack\<rparr>)))))"

text \<open>The body of the loop: the tests in the script's order.\<close>

definition parse_line :: "(string \<Rightarrow> error + metadata) \<Rightarrow> string \<Rightarrow> parser_state \<Rightarrow> error + parser_state" where
  "parse_line loads line ps =
     (if startswith line ''GROUP BEGIN '' then group_begin loads line ps
      else if startswith line ''GROUP END '' then group_end line ps
      else if startswith line ''DEFAULT METADATA'' then default_metadata_line loads line ps
      else
        (case fun_re_match line of
           Some fun_match \<Rightarrow> function_line fun_match ps
         | None \<Rightarrow> Inl (UnexpectedLine line)))"

text \<open>
  The lines that the loop sees: stripped, without the empty ones and the comments.
\<close>

definition clean_lines :: "string list \<Rightarrow> string list" where
  "clean_lines raw =
     map strip (filter (\<lambda>line. strip line \<noteq> '''' \<and> \<not> startswith (strip line) ''//'') raw)"

definition get_parsed_functions :: "(string \<Rightarrow> error + metadata) \<Rightarrow> string list \<Rightarrow> error + (string \<times> group) list" where
  "get_parsed_functions loads raw =
     (case fold_err (parse_line loads) (clean_lines raw) init_parser_state of
        Inl e \<Rightarrow> Inl e
      | Inr ps \<Rightarrow> Inr (parsed_functions ps))"

text \<open>
  The whole run: parse, then process every top-level group.
\<close>

definition generate :: "(string \<Rightarrow> error + metadata) \<Rightarrow> string list \<Rightarrow> error + state" where
  "generate loads raw =
     (case get_parsed_functions loads raw of
        Inl e \<Rightarrow> Inl e
      | Inr parsed \<Rightarrow> process_all parsed)"

text \<open>
  The input condition of the claim on unterminated groups: reading \<open>ls\<close> from nesting
  depth \<open>d\<close> (counted above the group in question), no \<open>GROUP END\<close> line closes more
  groups than the lines before it have opened.
\<close>

fun never_closes :: "nat \<Rightarrow> string list \<Rightarrow> bool" where
  "never_closes d [] = True"
| "never_closes d (l # ls) =
     (if startswith l ''GROUP BEGIN '' then never_closes (Suc d) ls
      else if startswith l ''GROUP END '' then 0 < d \<and> never_closes (d - 1) ls
      else never_closes d ls)"


section \<open>Invariants and example inputs\<close>

text \<open>
  The identities handed out so far are \<open>0, 1, \<dots>\<close> in the order of the declarations,
  the counter is their number, and the declared unique names are exactly the names in
  \<open>defined_function_variants\<close>, each declared once.
\<close>

definition ids_dense :: "state \<Rightarrow> bool" where
  "ids_dense st =
     (map snd (builtin_id_declarations st) = map int [0..<length (builtin_id_declarations st)]
      \<and> id_counter st = int (length (builtin_id_declarations st))
      \<and> fst ` set (builtin_id_declarations st) = defined_function_variants st
      \<and> distinct (map fst (builtin_id_declarations st)))"

text \<open>
  Types and declarations used as concrete inputs. Each type is what \<open>TType\<close> makes of
  the token named in its definition.
\<close>

definition ex_float :: ttype where
  "ex_float = \<lparr>basic = Some ''Float'', primarySize = 1, secondarySize = 1,
               precision = ''Undefined'', qualifier = ''Global'', genType = None\<rparr>"

definition ex_out_float :: ttype where
  "ex_out_float = \<lparr>basic = Some ''Float'', primarySize = 1, secondarySize = 1,
                   precision = ''Undefined'', qualifier = ''Out'', genType = None\<rparr>"

definition ex_genType :: ttype where
  "ex_genType = \<lparr>basic = Some ''Float'', primarySize = 1, secondarySize = 1,
                 precision = ''Undefined'', qualifier = ''Global'', genType = Some ''yes''\<rparr>"

definition ex_ivec :: ttype where
  "ex_ivec = \<lparr>basic = Some ''Int'', primarySize = 1, secondarySize = 1,
              precision = ''Undefined'', qualifier = ''Global'', genType = Some ''vec''\<rparr>"

definition ex_gsampler2D :: ttype where
  "ex_gsampler2D = \<lparr>basic = Some ''Sampler2D'', primarySize = 1, secondarySize = 1,
                    precision = ''Undefined'', qualifier = ''Global'',
                    genType = Some ''sampler_or_image''\<rparr>"

definition ex_gvec4 :: ttype where
  "ex_gvec4 = \<lparr>basic = None, primarySize = 4, secondarySize = 1,
               precision = ''Undefined'', qualifier = ''Global'',
               genType = Some ''sampler_or_image''\<rparr>"

definition ex_decl :: "string \<Rightarrow> ttype \<Rightarrow> ttype list \<Rightarrow> function_props" where
  "ex_decl nm rt ps = \<lparr>name = nm, returnType = rt, parameters = ps,
                       level = Some ''COMMON_BUILTINS'', extension = None, op = Some ''auto'',
                       hasSideEffects = False, suffix = None\<rparr>"

definition ex_parsed :: "(string \<times> group) list" where
  "ex_parsed =
     [(''Math'', Group [ex_decl ''sin'' ex_genType [ex_genType],
                        ex_decl ''sin'' ex_float [ex_float]] ''Math'' [] None)]"


text \<open>
  The state in which the first group finds the variables once its condition has been
  entered, and the template arguments of a declaration \<open>texture2D\<close> with suffix \<open>Ext\<close>.
\<close>

definition ex_state :: state where
  "ex_state = init_state\<lparr>insert_functions_by_condition := [(''NO_CONDITION'', [])]\<rparr>"

definition ex_targs :: "string \<Rightarrow> string \<Rightarrow> template_args" where
  "ex_targs nm sfx = \<lparr>ta_name = nm, ta_name_with_suffix = nm @ sfx,
                      ta_level = ''COMMON_BUILTINS'', ta_extension = ''UNDEFINED'',
                      ta_op = ''CallBuiltInFunction'',
                      ta_known_to_not_have_side_effects = ''false''\<rparr>"

text \<open>
  The two names as the specification words them, to be compared with the script's.
  The wire name: the name with its suffix, then the parameters' tokens separated by
  \<open>;\<close>, nothing after the last. The unique-variant key: the same with \<open>_\<close>, each token
  behind the marker of its qualifier, and \<open>empty\<close> when there is no parameter.
\<close>

definition spec_mangled_wire_name :: "string \<Rightarrow> string list \<Rightarrow> string" where
  "spec_mangled_wire_name name_with_suffix tokens = name_with_suffix @ join '';'' tokens"


text \<open>Two parameter lists that differ in qualifiers only.\<close>

definition same_up_to_qualifiers :: "ttype list \<Rightarrow> ttype list \<Rightarrow> bool" where
  "same_up_to_qualifiers ps qs = list_all2 (\<lambda>p q. q\<lparr>qualifier := qualifier p\<rparr> = p) ps qs"


text \<open>
  What the expansion is expected to make of a type and of a declaration: a generic type
  set to dimension \<open>n\<close>, or to the sampler family with the given prefix; a type without
  \<open>genType\<close> is left alone.
\<close>

definition to_dimension :: "int \<Rightarrow> ttype \<Rightarrow> ttype" where
  "to_dimension n t =
     (if genType t = None then t
      else t\<lparr>primarySize := n, secondarySize := 1, genType := None\<rparr>)"

definition to_family :: "string \<Rightarrow> ttype \<Rightarrow> ttype" where
  "to_family prefix t =
     (if genType t = None then t
      else
        (case basic t of
           None \<Rightarrow>
             \<lparr>basic = map_of [('''', ''Float''), (''I'', ''Int''), (''U'', ''UInt'')] prefix,
              primarySize = primarySize t, secondarySize = 1, precision = ''Undefined'',
              qualifier = ''Global'', genType = None\<rparr>
         | Some b \<Rightarrow>
             \<lparr>basic = Some (prefix @ b), primarySize = 1, secondarySize = 1,
              precision = ''Undefined'', qualifier = ''Global'', genType = None\<rparr>))"

definition dimension_variant :: "function_props \<Rightarrow> int \<Rightarrow> function_props" where
  "dimension_variant d n =
     d\<lparr>parameters := map (to_dimension n) (parameters d),
       returnType := to_dimension n (returnType d)\<rparr>"

definition family_variant :: "function_props \<Rightarrow> string \<Rightarrow> function_props" where
  "family_variant d prefix =
     d\<lparr>parameters := map (to_family prefix) (parameters d),
       returnType := to_family prefix (returnType d)\<rparr>"


text \<open>
  Inputs for the parser: a \<open>loads\<close> that rejects every text (the example lines carry no
  metadata), a complete group, and lines that open two groups and close only the inner
  one.
\<close>

definition ex_loads :: "string \<Rightarrow> error + metadata" where
  "ex_loads s = Inl ValueError"

definition ex_pre :: "string list" where
  "ex_pre = [''GROUP BEGIN Math'', ''  float sin(float);'', ''GROUP END Math'']"

definition ex_rest :: "string list" where
  "ex_rest = [''GROUP BEGIN Open'', ''// not closed'', ''float cos(float);'',
              ''GROUP BEGIN Inner'', ''float tan(float);'', ''GROUP END Inner'']"


text \<open>
  A whole input text, and a \<open>loads\<close> that reads the one metadata text in it.
\<close>

definition ex_loads_common :: "string \<Rightarrow> error + metadata" where
  "ex_loads_common s =
     (if s = ''{\"level\": \"COMMON_BUILTINS\", \"op\": \"auto\"}''
      then Inr (empty_metadata\<lparr>md_level := Some ''COMMON_BUILTINS'', md_op := Some ''auto''\<rparr>)
      else Inl ValueError)"

definition ex_input :: "string list" where
  "ex_input =
     [''GROUP BEGIN Math'',
      ''  DEFAULT METADATA {\"level\": \"COMMON_BUILTINS\", \"op\": \"auto\"}'',
      ''  genType sin(genType);'',
      ''  float sin(out float);'',
      ''GROUP END Math'']"


text \<open>
  Processing that may lie between two variants of a run: the rest of a loop over
  variants, the rest of a loop over the declarations of a group, or whole groups, in any
  sequence.
\<close>

datatype step =
    Variants string template_args "function_props list"
  | Functions string "function_props list"
  | Groups "(string \<times> group) list"

fun run_step :: "step \<Rightarrow> state \<Rightarrow> error + state" where
  "run_step (Variants condition targs function_variants) st =
     fold_err (process_variant condition targs) function_variants st"
| "run_step (Functions condition functions) st = fold_err (process_function condition) functions st"
| "run_step (Groups groups) st = process_subgroups groups st"


section \<open>Properties of the hash\<close>

lemma ord_uint: "ord c = uint (of_char c :: 32 word)"
  by (simp add: ord_def of_char_def)

lemma hash32_step_uint:
  "((uint (h :: 32 word) XOR ord c) * fnvPrime) AND 0xffffffff = uint (fnv1a_step h c)"
proof -
  have mask: "(0xffffffff :: int) = mask 32"
    by (simp add: mask_eq_exp_minus_1)
  have "uint (fnv1a_step h c) = (uint (h XOR of_char c) * 16777619) mod 2 ^ 32"
    by (simp add: fnv1a_step_def uint_word_ariths)
  also have "\<dots> = ((uint h XOR ord c) * fnvPrime) mod 2 ^ 32"
    by (simp add: ord_uint fnvPrime_def uint_xor)
  also have "\<dots> = ((uint h XOR ord c) * fnvPrime) AND 0xffffffff"
    unfolding mask by (simp add: take_bit_eq_mask [symmetric] take_bit_eq_mod)
  finally show ?thesis
    by simp
qed

lemma hash32_sin: "hash32 ''sin'' = 0xe0302a4d"
  by code_simp

lemma hash32_loop_uint: "hash32_loop (uint h) s = uint (foldl fnv1a_step h s)"
  by (induction s arbitrary: h) (simp_all add: hash32_step_uint)

text \<open>
  C5. The value returned by \<open>hash32\<close> is the FNV-1a hash of the string's character codes,
  with offset basis \<open>0x811c9dc5\<close> and prime \<open>16777619\<close>, computed on 32-bit words (so it
  lies in \<open>[0, 2 ^ 32)\<close>); at the name \<open>sin\<close> both give the same number.
\<close>

theorem hash32_is_fnv1a:
  "hash32 s = uint (fnv1a_32 s) \<and> 0 \<le> hash32 s \<and> hash32 s < 2 ^ 32
   \<and> hash32 ''sin'' = uint (fnv1a_32 ''sin'')"
proof -
  have basis: "fnvOffsetBasis = uint (0x811c9dc5 :: 32 word)"
    by (simp add: fnvOffsetBasis_def)
  have eq: "hash32 t = uint (fnv1a_32 t)" for t
    unfolding hash32_def fnv1a_32_def basis by (rule hash32_loop_uint)
  have "uint (fnv1a_32 s) < 2 ^ LENGTH(32)"
    by (rule uint_lt2p)
  then show ?thesis
    by (simp add: eq)
qed

section \<open>Loops that can raise\<close>

lemma fold_err_invariant:
  assumes step: "\<And>x s s'. P s \<Longrightarrow> f x s = Inr s' \<Longrightarrow> P s'"
    and "P s" and "fold_err f xs s = Inr s'"
  shows "P s'"
  using assms(2,3)
proof (induction xs arbitrary: s)
  case Nil
  then show ?case by simp
next
  case (Cons x xs)
  then show ?case
    by (auto split: sum.splits intro: step)
qed

lemma fold_err_append:
  "fold_err f (xs @ ys) s =
     (case fold_err f xs s of Inl e \<Rightarrow> Inl e | Inr s' \<Rightarrow> fold_err f ys s')"
  by (induction xs arbitrary: s) (auto split: sum.splits)

section \<open>Invariants of the processing\<close>

text \<open>
  A property of the state that adding a condition to \<open>insert_functions_by_condition\<close>
  keeps and that one declaration keeps holds after any groups have been processed.
\<close>

lemma process_groups_invariant:
  assumes upd: "\<And>st x. P st \<Longrightarrow> P (st\<lparr>insert_functions_by_condition := x\<rparr>)"
    and fn: "\<And>c fp st st'. P st \<Longrightarrow> process_function c fp st = Inr st' \<Longrightarrow> P st'"
  shows "P st \<longrightarrow> process_function_group gn g st = Inr st' \<longrightarrow> P st'"
    and "P st \<longrightarrow> process_subgroups subs st = Inr st' \<longrightarrow> P st'"
proof (induction gn g st and subs st arbitrary: st' and st'
    rule: process_function_group_process_subgroups.induct)
  case (1 group_name fs nm subs cond st)
  let ?c = "case cond of None \<Rightarrow> ''NO_CONDITION'' | Some c \<Rightarrow> c"
  let ?st1 = "if map_of (insert_functions_by_condition st) ?c = None
              then st\<lparr>insert_functions_by_condition :=
                        insert_functions_by_condition st @ [(?c, [])]\<rparr>
              else st"
  show ?case
  proof (intro impI)
    assume d: "P st"
      and r: "process_function_group group_name (Group fs nm subs cond) st = Inr st'"
    show "P st'"
    proof (cases "process_single_function_group ?c group_name (Group fs nm subs cond) ?st1")
      case (Inl e)
      with r show ?thesis
        by (simp add: Let_def)
    next
      case (Inr st2)
      with r have p: "process_subgroups subs st2 = Inr st'"
        by (simp add: Let_def)
      have st1: "P ?st1"
        using d by (auto intro: upd)
      have "P st2"
      proof (rule fold_err_invariant [where P = P])
        show "P s \<Longrightarrow> process_function ?c x s = Inr s' \<Longrightarrow> P s'" for x s s'
          by (rule fn)
        show "P ?st1"
          by (rule st1)
        show "fold_err (process_function ?c) fs ?st1 = Inr st2"
          using Inr by (simp add: process_single_function_group_def)
      qed
      with 1 [OF refl refl Inr] p show ?thesis
        by blast
    qed
  qed
next
  case (2 st)
  show ?case by auto
next
  case (3 sub rest st)
  show ?case
  proof (intro impI)
    assume d: "P st" and r: "process_subgroups (sub # rest) st = Inr st'"
    show "P st'"
    proof (cases "process_function_group (fst sub) (snd sub) st")
      case (Inl e)
      with r show ?thesis by simp
    next
      case (Inr st1)
      with r have p: "process_subgroups rest st1 = Inr st'"
        by simp
      from "3.IH"(1) d Inr have "P st1"
        by blast
      with "3.IH"(2) [OF Inr] p show ?thesis
        by blast
    qed
  qed
qed

text \<open>What one pass of the loop over the variants does to the identities.\<close>

lemma process_variant_result:
  assumes "process_variant condition targs fp st = Inr st'"
  shows "st' = st
         \<or> (\<exists>u. get_unique_identifier_name (ta_name_with_suffix targs) (get_parameters fp) = Inr u
                \<and> u \<notin> defined_function_variants st
                \<and> defined_function_variants st' = insert u (defined_function_variants st)
                \<and> builtin_id_declarations st' = builtin_id_declarations st @ [(u, id_counter st)]
                \<and> id_counter st' = id_counter st + 1)"
  using assms
  by (auto simp: process_variant_def Let_def split: sum.splits option.splits if_splits)

lemma ids_dense_init: "ids_dense init_state"
  by (simp add: ids_dense_def init_state_def)

lemma process_variant_ids_dense:
  assumes "ids_dense st" and "process_variant condition targs fp st = Inr st'"
  shows "ids_dense st'"
proof -
  from process_variant_result [OF assms(2)] show ?thesis
  proof
    assume "st' = st"
    with assms(1) show ?thesis by simp
  next
    assume "\<exists>u. get_unique_identifier_name (ta_name_with_suffix targs) (get_parameters fp) = Inr u
                \<and> u \<notin> defined_function_variants st
                \<and> defined_function_variants st' = insert u (defined_function_variants st)
                \<and> builtin_id_declarations st' = builtin_id_declarations st @ [(u, id_counter st)]
                \<and> id_counter st' = id_counter st + 1"
    then obtain u where u: "u \<notin> defined_function_variants st"
      and d: "defined_function_variants st' = insert u (defined_function_variants st)"
      and b: "builtin_id_declarations st' = builtin_id_declarations st @ [(u, id_counter st)]"
      and c: "id_counter st' = id_counter st + 1"
      by blast
    from assms(1) have m: "map snd (builtin_id_declarations st)
                           = map int [0..<length (builtin_id_declarations st)]"
      and n: "id_counter st = int (length (builtin_id_declarations st))"
      and f: "fst ` set (builtin_id_declarations st) = defined_function_variants st"
      and di: "distinct (map fst (builtin_id_declarations st))"
      by (simp_all add: ids_dense_def)
    have "u \<notin> fst ` set (builtin_id_declarations st)"
      using u f by simp
    then show ?thesis
      unfolding ids_dense_def b d c using m n f di by simp
  qed
qed

lemma add_unmangled_ids_dense:
  assumes "ids_dense st" and "add_unmangled condition targs st = Inr st'"
  shows "ids_dense st'"
proof -
  have upd: "ids_dense (st\<lparr>unmangled_function_if_statements := x,
                           unmangled_builtin_declarations := y\<rparr>) = ids_dense st" for x y
    by (simp add: ids_dense_def)
  show ?thesis
    using assms by (auto simp: add_unmangled_def upd split: sum.splits if_splits)
qed

lemma ids_dense_name_declarations:
  "ids_dense (st\<lparr>name_declarations := x\<rparr>) = ids_dense st"
  by (simp add: ids_dense_def)

lemma ids_dense_insert_functions:
  "ids_dense (st\<lparr>insert_functions_by_condition := x\<rparr>) = ids_dense st"
  by (simp add: ids_dense_def)

text \<open>
  A declaration that is processed without an exception went through the record of its
  unmangled name and then through the loop over its variants.
\<close>

lemma process_function_steps:
  assumes "process_function condition fp st = Inr st'"
  shows "\<exists>targs vs x st2.
      ta_name targs = name fp
      \<and> level fp = Some (ta_level targs)
      \<and> add_unmangled condition targs (st\<lparr>name_declarations := x\<rparr>) = Inr st2
      \<and> fold_err (process_variant condition targs) vs st2 = Inr st'"
  using assms unfolding process_function_def Let_def
  by (simp split: sum.splits option.splits) force

lemma process_function_ids_dense:
  assumes "ids_dense st" and "process_function condition fp st = Inr st'"
  shows "ids_dense st'"
proof -
  from process_function_steps [OF assms(2)] obtain targs vs x st2 where
    a: "add_unmangled condition targs (st\<lparr>name_declarations := x\<rparr>) = Inr st2"
    and f: "fold_err (process_variant condition targs) vs st2 = Inr st'"
    by blast
  have "ids_dense (st\<lparr>name_declarations := x\<rparr>)"
    using assms(1) by (simp add: ids_dense_name_declarations)
  then have st2: "ids_dense st2"
    using a by (rule add_unmangled_ids_dense)
  show ?thesis
  proof (rule fold_err_invariant [where P = ids_dense])
    show "ids_dense s \<Longrightarrow> process_variant condition targs v s = Inr s' \<Longrightarrow> ids_dense s'"
      for v s s'
      by (rule process_variant_ids_dense)
    show "ids_dense st2"
      by (rule st2)
    show "fold_err (process_variant condition targs) vs st2 = Inr st'"
      by (rule f)
  qed
qed

lemma process_all_ids_dense:
  assumes "process_all parsed = Inr st"
  shows "ids_dense st"
proof -
  have "ids_dense init_state \<longrightarrow> process_subgroups parsed init_state = Inr st \<longrightarrow> ids_dense st"
    by (rule process_groups_invariant(2) [of ids_dense])
      (simp_all add: ids_dense_insert_functions process_function_ids_dense)
  then show ?thesis
    using assms ids_dense_init by (simp add: process_all_def)
qed

text \<open>
  C1. After a run that raised nothing, the identities of the declared variants are
  \<open>0, 1, \<dots>\<close> in the order of declaration: as a set they are
  \<open>{0 .. last_static_builtin_id}\<close>, no identity repeats, the counter started at \<open>0\<close> and
  equals the number of declared variants, and the recorded last identity is the counter
  minus one.
\<close>

theorem identities_dense:
  assumes "generate loads raw = Inr st"
  shows "set (map snd (builtin_id_declarations st)) = {0..last_static_builtin_id st}
         \<and> distinct (map snd (builtin_id_declarations st))
         \<and> map snd (builtin_id_declarations st)
             = map int [0..<length (builtin_id_declarations st)]
         \<and> id_counter init_state = 0
         \<and> id_counter st = int (length (builtin_id_declarations st))
         \<and> last_static_builtin_id st = id_counter st - 1"
proof -
  from assms obtain parsed where "process_all parsed = Inr st"
    by (auto simp: generate_def split: sum.splits)
  then have d: "ids_dense st"
    by (rule process_all_ids_dense)
  let ?ds = "builtin_id_declarations st"
  from d have m: "map snd ?ds = map int [0..<length ?ds]" and c: "id_counter st = int (length ?ds)"
    by (simp_all add: ids_dense_def)
  have "set (map int [0..<length ?ds]) = {0..int (length ?ds) - 1}"
  proof -
    have "set (map int [0..<length ?ds]) = int ` {0..<length ?ds}"
      by simp
    also have "\<dots> = {int 0..<int (length ?ds)}"
      by (rule image_int_atLeastLessThan)
    also have "\<dots> = {0..int (length ?ds) - 1}"
      by auto
    finally show ?thesis .
  qed
  moreover have "distinct (map int [0..<length ?ds])"
    by (simp add: distinct_map inj_on_def)
  ultimately show ?thesis
    using m c by (simp add: last_static_builtin_id_def init_state_def)
qed

text \<open>
  A run on five lines: \<open>genType sin(genType)\<close> gives four variants, and
  \<open>float sin(out float)\<close> has the unique name of the first of them and gets no identity.
\<close>

theorem identities_dense_witness:
  "\<exists>st. generate ex_loads_common ex_input = Inr st
        \<and> set (map snd (builtin_id_declarations st)) = {0..3}
        \<and> last_static_builtin_id st = 3"
proof -
  have "case generate ex_loads_common ex_input of
          Inl _ \<Rightarrow> False | Inr st \<Rightarrow> id_counter st = 4"
    by code_simp
  then obtain st where r: "generate ex_loads_common ex_input = Inr st" and c: "id_counter st = 4"
    by (auto split: sum.splits)
  have l: "last_static_builtin_id st = 3"
    using c by (simp add: last_static_builtin_id_def)
  from identities_dense [OF r] have
    "set (map snd (builtin_id_declarations st)) = {0..last_static_builtin_id st}"
    by (rule conjunct1)
  with l have "set (map snd (builtin_id_declarations st)) = {0..3}"
    by (simp only:)
  with r l show ?thesis
    by blast
qed

section \<open>Mangled names and unique names\<close>

lemma get_mangled_name_separator:
  "get_mangled_name p sep =
     (case get_mangled_name p [] of Inl e \<Rightarrow> Inl e | Inr t \<Rightarrow> Inr (t @ sep))"
  by (simp add: get_mangled_name_def split: option.splits)

lemma map_err_tokens:
  assumes "map_err (\<lambda>p. get_mangled_name p []) ps = Inr tokens"
  shows "map_err (\<lambda>p. get_mangled_name p sep) ps = Inr (map (\<lambda>t. t @ sep) tokens)"
  using assms
proof (induction ps arbitrary: tokens)
  case Nil
  then show ?case by auto
next
  case (Cons p ps)
  from Cons.prems obtain t ts where t: "get_mangled_name p [] = Inr t"
    and ts: "map_err (\<lambda>p. get_mangled_name p []) ps = Inr ts" and tokens: "tokens = t # ts"
    by (auto split: sum.splits)
  have "get_mangled_name p sep = Inr (t @ sep)"
    using t by (simp add: get_mangled_name_separator [of p sep])
  with Cons.IH [OF ts] tokens show ?case
    by simp
qed


lemma get_function_mangled_name_shape:
  assumes "map_err (\<lambda>p. get_mangled_name p []) ps = Inr tokens"
  shows "get_function_mangled_name function_name ps
         = Inr (function_name @ ''('' @ concat (map (\<lambda>t. t @ '';'') tokens))"
  using map_err_tokens [OF assms, of "'';''"] by (simp add: get_function_mangled_name_def)


lemma unique_name_tokens:
  assumes "get_unique_identifier_name function_name ps = Inr u"
  shows "\<exists>tokens. map_err (\<lambda>p. get_mangled_name p []) ps = Inr tokens"
proof -
  from assms have "\<exists>ts. map_err (\<lambda>p. get_mangled_name p ''_'') ps = Inr ts"
    by (auto simp: get_unique_identifier_name_def split: sum.splits)
  then show ?thesis
  proof (induction ps)
    case Nil
    then show ?case by simp
  next
    case (Cons p ps)
    then show ?case
      by (auto simp: get_mangled_name_separator [of p "''_''"] split: sum.splits)
  qed
qed

text \<open>The two branches of the loop over the variants.\<close>

lemma process_variant_skip:
  assumes "get_unique_identifier_name (ta_name_with_suffix targs) (get_parameters fp) = Inr u"
    and "u \<in> defined_function_variants st"
  shows "process_variant condition targs fp st = Inr st"
  using assms by (simp add: process_variant_def)

lemma process_variant_defined:
  assumes "process_variant condition targs fp st = Inr st'"
  shows "\<exists>u. get_unique_identifier_name (ta_name_with_suffix targs) (get_parameters fp) = Inr u
             \<and> u \<in> defined_function_variants st'"
  using assms
  by (auto simp: process_variant_def Let_def split: sum.splits option.splits if_splits)

lemma process_variant_name_declaration:
  assumes "process_variant condition targs fp st = Inr st'"
    and "get_unique_identifier_name (ta_name_with_suffix targs) (get_parameters fp) = Inr u"
    and "u \<notin> defined_function_variants st"
  shows "\<exists>m. get_function_mangled_name (ta_name targs) (get_parameters fp) = Inr m
             \<and> name_declarations st' = insert (template_name_declaration u m) (name_declarations st)"
  using assms
  by (auto simp: process_variant_def Let_def split: sum.splits option.splits if_splits)

text \<open>
  C2, as the script has it. For every variant that is declared, the mangled name written
  into the name declarations is the plain function name (\<open>ta_name\<close>, without the suffix),
  an opening parenthesis, and then each parameter's token followed by \<open>;\<close>: the
  separator also follows the last token.
\<close>

theorem mangled_wire_name:
  assumes "process_variant condition targs fp st = Inr st'"
    and "get_unique_identifier_name (ta_name_with_suffix targs) (get_parameters fp) = Inr u"
    and "u \<notin> defined_function_variants st"
  shows "\<exists>tokens. map_err (\<lambda>p. get_mangled_name p '''') (get_parameters fp) = Inr tokens
           \<and> get_function_mangled_name (ta_name targs) (get_parameters fp)
               = Inr (ta_name targs @ ''('' @ concat (map (\<lambda>t. t @ '';'') tokens))
           \<and> template_name_declaration u
                (ta_name targs @ ''('' @ concat (map (\<lambda>t. t @ '';'') tokens))
               \<in> name_declarations st'"
proof -
  from unique_name_tokens [OF assms(2)] obtain tokens where
    t: "map_err (\<lambda>p. get_mangled_name p []) (get_parameters fp) = Inr tokens"
    by blast
  note m = get_function_mangled_name_shape [OF t, of "ta_name targs"]
  from process_variant_name_declaration [OF assms] m
  have "template_name_declaration u (ta_name targs @ ''('' @ concat (map (\<lambda>t. t @ '';'') tokens))
          \<in> name_declarations st'"
    by auto
  with t m show ?thesis
    by blast
qed

theorem mangled_wire_name_witness:
  "\<exists>st'. process_variant ''NO_CONDITION'' (ex_targs ''texture2D'' ''Ext'')
            (ex_decl ''texture2D'' ex_float [ex_float, ex_float]) ex_state = Inr st'
         \<and> get_unique_identifier_name ''texture2DExt'' [ex_float, ex_float] = Inr ''texture2DExt_f_f_''
         \<and> ''texture2DExt_f_f_'' \<notin> defined_function_variants ex_state
         \<and> template_name_declaration ''texture2DExt_f_f_'' ''texture2D(f;f;''
             \<in> name_declarations st'"
proof -
  let ?t = "ex_targs ''texture2D'' ''Ext''"
  let ?d = "ex_decl ''texture2D'' ex_float [ex_float, ex_float]"
  have "case process_variant ''NO_CONDITION'' ?t ?d ex_state of Inl _ \<Rightarrow> False | Inr _ \<Rightarrow> True"
    by code_simp
  then obtain st' where r: "process_variant ''NO_CONDITION'' ?t ?d ex_state = Inr st'"
    by (auto split: sum.splits)
  have p: "get_parameters ?d = [ex_float, ex_float]"
    and n: "ta_name_with_suffix ?t = ''texture2DExt''" and n': "ta_name ?t = ''texture2D''"
    by (simp_all add: get_parameters_def ex_decl_def ex_targs_def)
  have u: "get_unique_identifier_name ''texture2DExt'' [ex_float, ex_float] = Inr ''texture2DExt_f_f_''"
    by code_simp
  have k: "map_err (\<lambda>p. get_mangled_name p '''') [ex_float, ex_float] = Inr [''f'', ''f'']"
    by code_simp
  have f: "''texture2DExt_f_f_'' \<notin> defined_function_variants ex_state"
    by (simp add: ex_state_def init_state_def)
  have u': "get_unique_identifier_name (ta_name_with_suffix ?t) (get_parameters ?d)
            = Inr ''texture2DExt_f_f_''"
    unfolding p n by (rule u)
  from mangled_wire_name [OF r u' f] obtain tokens where
    t: "map_err (\<lambda>p. get_mangled_name p '''') (get_parameters ?d) = Inr tokens"
    and m: "template_name_declaration ''texture2DExt_f_f_''
              (ta_name ?t @ ''('' @ concat (map (\<lambda>t. t @ '';'') tokens))
            \<in> name_declarations st'"
    by blast
  from t [unfolded p] k have "Inr tokens = (Inr [''f'', ''f''] :: error + string list)"
    by (rule trans [OF sym])
  then have tk: "tokens = [''f'', ''f'']"
    by simp
  have "template_name_declaration ''texture2DExt_f_f_'' ''texture2D(f;f;'' \<in> name_declarations st'"
    using m unfolding tk n' by simp
  with r u f show ?thesis
    by blast
qed

text \<open>
  C2 as the specification states it fails: for \<open>mix(float, float)\<close> the script's name is
  \<open>mix(f;f;\<close>, with a parenthesis and a separator after the last token, and not
  \<open>mixf;f\<close>.
\<close>

theorem mangled_wire_name_counterexample:
  "get_function_mangled_name ''mix'' [ex_float, ex_float] = Inr ''mix(f;f;''
   \<and> map_err (\<lambda>p. get_mangled_name p '''') [ex_float, ex_float] = Inr [''f'', ''f'']
   \<and> spec_mangled_wire_name ''mix'' [''f'', ''f''] = ''mixf;f''
   \<and> get_function_mangled_name ''mix'' [ex_float, ex_float]
       \<noteq> Inr (spec_mangled_wire_name ''mix'' [''f'', ''f''])"
  by code_simp




lemma get_mangled_name_qualifier:
  "get_mangled_name (p\<lparr>qualifier := x\<rparr>) sep = get_mangled_name p sep"
proof -
  have "size_prefix (p\<lparr>qualifier := x\<rparr>) = size_prefix p"
    by (simp add: size_prefix_def is_matrix_def)
  then show ?thesis
    by (simp add: get_mangled_name_def split: option.splits)
qed

lemma same_up_to_qualifiers_unique_name:
  assumes "same_up_to_qualifiers ps qs"
  shows "get_unique_identifier_name n qs = get_unique_identifier_name n ps"
proof -
  from assms have "list_all2 (\<lambda>p q. q\<lparr>qualifier := qualifier p\<rparr> = p) ps qs"
    by (simp add: same_up_to_qualifiers_def)
  then have "map_err (\<lambda>p. get_mangled_name p ''_'') qs = map_err (\<lambda>p. get_mangled_name p ''_'') ps"
  proof (induction rule: list_all2_induct)
    case Nil
    then show ?case by simp
  next
    case (Cons p ps q qs)
    have "get_mangled_name q ''_'' = get_mangled_name (q\<lparr>qualifier := qualifier p\<rparr>) ''_''"
      by (simp add: get_mangled_name_qualifier)
    with Cons.hyps(1) have g: "get_mangled_name q ''_'' = get_mangled_name p ''_''"
      by simp
    show ?case
      unfolding map_err.simps g Cons.IH by (rule refl)
  qed
  then show ?thesis
    by (simp add: get_unique_identifier_name_def)
qed

text \<open>Unique names are never taken out of \<open>defined_function_variants\<close>.\<close>

lemma process_variant_keys:
  assumes "D \<subseteq> defined_function_variants st" and "process_variant condition targs fp st = Inr st'"
  shows "D \<subseteq> defined_function_variants st'"
  using process_variant_result [OF assms(2)] assms(1) by auto

lemma add_unmangled_keys:
  assumes "add_unmangled condition targs st = Inr st'"
  shows "defined_function_variants st' = defined_function_variants st"
  using assms by (auto simp: add_unmangled_def split: sum.splits if_splits)

lemma process_function_keys:
  assumes "D \<subseteq> defined_function_variants st" and "process_function condition fp st = Inr st'"
  shows "D \<subseteq> defined_function_variants st'"
proof -
  from process_function_steps [OF assms(2)] obtain targs vs x st2 where
    a: "add_unmangled condition targs (st\<lparr>name_declarations := x\<rparr>) = Inr st2"
    and f: "fold_err (process_variant condition targs) vs st2 = Inr st'"
    by blast
  from add_unmangled_keys [OF a] assms(1) have st2: "D \<subseteq> defined_function_variants st2"
    by simp
  show ?thesis
  proof (rule fold_err_invariant [where P = "\<lambda>s. D \<subseteq> defined_function_variants s"])
    show "D \<subseteq> defined_function_variants s \<Longrightarrow> process_variant condition targs v s = Inr s'
          \<Longrightarrow> D \<subseteq> defined_function_variants s'" for v s s'
      by (rule process_variant_keys)
    show "D \<subseteq> defined_function_variants st2"
      by (rule st2)
    show "fold_err (process_variant condition targs) vs st2 = Inr st'"
      by (rule f)
  qed
qed

lemma run_step_keys:
  assumes "D \<subseteq> defined_function_variants st" and "run_step s st = Inr st'"
  shows "D \<subseteq> defined_function_variants st'"
proof (cases s)
  case (Variants condition targs vs)
  show ?thesis
  proof (rule fold_err_invariant [where P = "\<lambda>s. D \<subseteq> defined_function_variants s"])
    show "D \<subseteq> defined_function_variants s \<Longrightarrow> process_variant condition targs v s = Inr s'
          \<Longrightarrow> D \<subseteq> defined_function_variants s'" for v s s'
      by (rule process_variant_keys)
    show "D \<subseteq> defined_function_variants st"
      by (rule assms(1))
    show "fold_err (process_variant condition targs) vs st = Inr st'"
      using assms(2) Variants by simp
  qed
next
  case (Functions condition fs)
  show ?thesis
  proof (rule fold_err_invariant [where P = "\<lambda>s. D \<subseteq> defined_function_variants s"])
    show "D \<subseteq> defined_function_variants s \<Longrightarrow> process_function condition fp s = Inr s'
          \<Longrightarrow> D \<subseteq> defined_function_variants s'" for fp s s'
      by (rule process_function_keys)
    show "D \<subseteq> defined_function_variants st"
      by (rule assms(1))
    show "fold_err (process_function condition) fs st = Inr st'"
      using assms(2) Functions by simp
  qed
next
  case (Groups groups)
  have "D \<subseteq> defined_function_variants st \<longrightarrow> process_subgroups groups st = Inr st'
        \<longrightarrow> D \<subseteq> defined_function_variants st'"
  proof (rule process_groups_invariant(2) [of "\<lambda>s. D \<subseteq> defined_function_variants s"])
    show "D \<subseteq> defined_function_variants s
          \<Longrightarrow> D \<subseteq> defined_function_variants (s\<lparr>insert_functions_by_condition := x\<rparr>)" for s x
      by simp
    show "D \<subseteq> defined_function_variants s \<Longrightarrow> process_function c fp s = Inr s'
          \<Longrightarrow> D \<subseteq> defined_function_variants s'" for c fp s s'
      by (rule process_function_keys)
  qed
  with assms Groups show ?thesis
    by simp
qed

lemma run_steps_keys:
  assumes "D \<subseteq> defined_function_variants st" and "fold_err run_step steps st = Inr st'"
  shows "D \<subseteq> defined_function_variants st'"
proof (rule fold_err_invariant [where P = "\<lambda>s. D \<subseteq> defined_function_variants s"])
  show "D \<subseteq> defined_function_variants s \<Longrightarrow> run_step x s = Inr s'
        \<Longrightarrow> D \<subseteq> defined_function_variants s'" for x s s'
    by (rule run_step_keys)
  show "D \<subseteq> defined_function_variants st"
    by (rule assms(1))
  show "fold_err run_step steps st = Inr st'"
    by (rule assms(2))
qed

text \<open>
  C9. Two variants with the same name and suffix whose parameters differ in qualifiers
  only have the same unique name. So once the first has gone through the loop, the
  second is skipped, at once and after any further processing (more variants, more
  declarations, more groups, in any sequence): the state, and with it the counter and
  the declarations, stays as it is, and the second gets no identity. And in the state at
  the end of any run no unique name is declared twice.
\<close>

theorem dedup_ignores_qualifiers:
  assumes "same_up_to_qualifiers (get_parameters v1) (get_parameters v2)"
    and "ta_name_with_suffix t2 = ta_name_with_suffix t1"
    and "process_variant c1 t1 v1 st = Inr st1"
  shows "get_unique_identifier_name (ta_name_with_suffix t2) (get_parameters v2)
           = get_unique_identifier_name (ta_name_with_suffix t1) (get_parameters v1)
         \<and> process_variant c2 t2 v2 st1 = Inr st1
         \<and> (\<forall>steps st2. fold_err run_step steps st1 = Inr st2
               \<longrightarrow> process_variant c2 t2 v2 st2 = Inr st2)
         \<and> (\<forall>loads raw final. generate loads raw = Inr final
               \<longrightarrow> distinct (map fst (builtin_id_declarations final)))"
proof -
  have e: "get_unique_identifier_name (ta_name_with_suffix t2) (get_parameters v2)
           = get_unique_identifier_name (ta_name_with_suffix t1) (get_parameters v1)"
    using same_up_to_qualifiers_unique_name [OF assms(1)] assms(2) by simp
  from process_variant_defined [OF assms(3)] obtain u where
    u: "get_unique_identifier_name (ta_name_with_suffix t1) (get_parameters v1) = Inr u"
    and d: "u \<in> defined_function_variants st1"
    by blast
  have skip: "process_variant c2 t2 v2 s = Inr s" if "u \<in> defined_function_variants s" for s
    using e u that by (intro process_variant_skip [of _ _ u]) simp_all
  have later: "process_variant c2 t2 v2 st2 = Inr st2"
    if "fold_err run_step steps st1 = Inr st2" for steps st2
  proof -
    have "{u} \<subseteq> defined_function_variants st1"
      using d by simp
    from run_steps_keys [OF this that] show ?thesis
      by (intro skip) simp
  qed
  have run: "distinct (map fst (builtin_id_declarations final))"
    if "generate loads raw = Inr final" for loads raw final
  proof -
    from that obtain parsed where "process_all parsed = Inr final"
      by (auto simp: generate_def split: sum.splits)
    then have "ids_dense final"
      by (rule process_all_ids_dense)
    then show ?thesis
      by (simp add: ids_dense_def)
  qed
  from e skip [OF d] later run show ?thesis
    by blast
qed

text \<open>
  After \<open>sin(float)\<close> the run goes on with a variant \<open>cos(float)\<close> and a declaration
  \<open>tan(float)\<close>; \<open>sin(out float)\<close> then finds its unique name defined and is skipped.
\<close>

theorem dedup_ignores_qualifiers_witness:
  "\<exists>st1 st2. same_up_to_qualifiers [ex_float] [ex_out_float]
         \<and> process_variant ''NO_CONDITION'' (ex_targs ''sin'' '''')
             (ex_decl ''sin'' ex_float [ex_float]) ex_state = Inr st1
         \<and> process_variant ''NO_CONDITION'' (ex_targs ''sin'' '''')
             (ex_decl ''sin'' ex_float [ex_out_float]) st1 = Inr st1
         \<and> fold_err run_step
              [Variants ''NO_CONDITION'' (ex_targs ''cos'' '''') [ex_decl ''cos'' ex_float [ex_float]],
               Functions ''NO_CONDITION'' [ex_decl ''tan'' ex_float [ex_float]]] st1 = Inr st2
         \<and> id_counter st2 = 3
         \<and> process_variant ''NO_CONDITION'' (ex_targs ''sin'' '''')
             (ex_decl ''sin'' ex_float [ex_out_float]) st2 = Inr st2"
proof -
  let ?t = "ex_targs ''sin'' ''''"
  let ?v1 = "ex_decl ''sin'' ex_float [ex_float]"
  let ?v2 = "ex_decl ''sin'' ex_float [ex_out_float]"
  let ?steps = "[Variants ''NO_CONDITION'' (ex_targs ''cos'' '''') [ex_decl ''cos'' ex_float [ex_float]],
                 Functions ''NO_CONDITION'' [ex_decl ''tan'' ex_float [ex_float]]]"
  have s: "same_up_to_qualifiers (get_parameters ?v1) (get_parameters ?v2)"
    by (simp add: same_up_to_qualifiers_def get_parameters_def ex_decl_def ex_float_def
        ex_out_float_def)
  have "case process_variant ''NO_CONDITION'' ?t ?v1 ex_state of
          Inl _ \<Rightarrow> False
        | Inr st1 \<Rightarrow>
            (case fold_err run_step ?steps st1 of
               Inl _ \<Rightarrow> False | Inr st2 \<Rightarrow> id_counter st2 = 3)"
    by code_simp
  then obtain st1 st2 where r: "process_variant ''NO_CONDITION'' ?t ?v1 ex_state = Inr st1"
    and f: "fold_err run_step ?steps st1 = Inr st2" and c: "id_counter st2 = 3"
    by (auto split: sum.splits)
  note d = dedup_ignores_qualifiers [OF s refl r, of "''NO_CONDITION''"]
  from d have 1: "process_variant ''NO_CONDITION'' ?t ?v2 st1 = Inr st1"
    by blast
  from d f have 2: "process_variant ''NO_CONDITION'' ?t ?v2 st2 = Inr st2"
    by blast
  have s': "same_up_to_qualifiers [ex_float] [ex_out_float]"
    using s by (simp add: get_parameters_def ex_decl_def)
  from s' r 1 f c 2 show ?thesis
    by blast
qed

section \<open>Variant expansion\<close>

lemma map_err_total:
  assumes "\<And>x. x \<in> set xs \<Longrightarrow> f x = Inr (g x)"
  shows "map_err f xs = Inr (map g xs)"
  using assms by (induction xs) simp_all

lemma map_err_set:
  assumes "map_err f xs = Inr ys" and "y \<in> set ys"
  shows "\<exists>x\<in>set xs. f x = Inr y"
  using assms
proof (induction xs arbitrary: ys)
  case Nil
  then show ?case by simp
next
  case (Cons x xs)
  from Cons.prems(1) obtain z zs where z: "f x = Inr z" and zs: "map_err f xs = Inr zs"
    and ys: "ys = z # zs"
    by (auto split: sum.splits)
  show ?case
  proof (cases "y = z")
    case True
    with z show ?thesis by simp
  next
    case False
    with Cons.prems(2) ys have "y \<in> set zs"
      by simp
    with Cons.IH [OF zs] show ?thesis
      by auto
  qed
qed

text \<open>The first loop: no tag, one tag, more than one tag.\<close>

lemma collect_gen_type_none:
  assumes "\<forall>p\<in>set ps. genType p = None"
  shows "collect_gen_type ps acc = Inr acc"
  using assms by (induction ps arbitrary: acc) simp_all

lemma collect_gen_type_single:
  assumes "\<forall>p\<in>set ps. genType p = None \<or> genType p = Some t"
    and "t \<in> set [''sampler_or_image'', ''vec'', ''yes'']"
    and "acc = [] \<or> acc = [t]"
  shows "collect_gen_type ps acc = Inr (if \<exists>p\<in>set ps. genType p = Some t then [t] else acc)"
  using assms
proof (induction ps arbitrary: acc)
  case Nil
  then show ?case by simp
next
  case (Cons p ps)
  show ?case
  proof (cases "genType p")
    case None
    with Cons show ?thesis
      by simp
  next
    case (Some g)
    with Cons.prems(1) have g: "g = t"
      by simp
    from Cons.prems(3) have i: "List.insert t acc = [t]"
      by auto
    have "collect_gen_type ps [t] = Inr [t]"
      using Cons.IH [of "[t]"] Cons.prems(1,2) by simp
    with Some g i Cons.prems(2) show ?thesis
      by simp
  qed
qed

lemma collect_gen_type_second_tag:
  assumes "\<forall>p\<in>set ps. \<forall>g. genType p = Some g \<longrightarrow> g \<in> set [''sampler_or_image'', ''vec'', ''yes'']"
    and "q \<in> set ps" and "genType q = Some h" and "h \<noteq> a"
  shows "collect_gen_type ps [a] = Inl MultipleGenTypes"
  using assms
proof (induction ps)
  case Nil
  then show ?case by simp
next
  case (Cons p ps)
  have valid: "\<forall>p\<in>set ps. \<forall>g. genType p = Some g \<longrightarrow> g \<in> set [''sampler_or_image'', ''vec'', ''yes'']"
    using Cons.prems(1) by simp
  show ?case
  proof (cases "genType p")
    case None
    with Cons.prems(2,3) have "q \<in> set ps"
      by auto
    from Cons.IH [OF valid this Cons.prems(3,4)] None show ?thesis
      by simp
  next
    case (Some g)
    with Cons.prems(1) have v: "g \<in> set [''sampler_or_image'', ''vec'', ''yes'']"
      by simp
    show ?thesis
    proof (cases "g = a")
      case True
      with Some Cons.prems(2,3,4) have "q \<in> set ps"
        by auto
      from Cons.IH [OF valid this Cons.prems(3,4)] Some v True show ?thesis
        by (simp add: Let_def)
    next
      case False
      then have "length (List.insert g [a]) > 1"
        by simp
      with Some v show ?thesis
        by (simp add: Let_def)
    qed
  qed
qed

lemma collect_gen_type_multiple:
  assumes "\<forall>p\<in>set ps. \<forall>g. genType p = Some g \<longrightarrow> g \<in> set [''sampler_or_image'', ''vec'', ''yes'']"
    and "p \<in> set ps" and "q \<in> set ps"
    and "genType p = Some g" and "genType q = Some h" and "g \<noteq> h"
  shows "collect_gen_type ps [] = Inl MultipleGenTypes"
  using assms
proof (induction ps)
  case Nil
  then show ?case by simp
next
  case (Cons x xs)
  have valid: "\<forall>p\<in>set xs. \<forall>g. genType p = Some g \<longrightarrow> g \<in> set [''sampler_or_image'', ''vec'', ''yes'']"
    using Cons.prems(1) by simp
  show ?case
  proof (cases "genType x")
    case None
    with Cons.prems(2,3,4,5) have "p \<in> set xs" and "q \<in> set xs"
      by auto
    from Cons.IH [OF valid this Cons.prems(4,5,6)] None show ?thesis
      by simp
  next
    case (Some g0)
    with Cons.prems(1) have v: "g0 \<in> set [''sampler_or_image'', ''vec'', ''yes'']"
      by simp
    have "collect_gen_type xs [g0] = Inl MultipleGenTypes"
    proof (cases "g = g0")
      case True
      with Cons.prems(6) have hg: "h \<noteq> g0"
        by simp
      with Some Cons.prems(3,5) have "q \<in> set xs"
        by auto
      from valid this Cons.prems(5) hg show ?thesis
        by (rule collect_gen_type_second_tag)
    next
      case False
      with Some Cons.prems(2,4) have "p \<in> set xs"
        by auto
      from valid this Cons.prems(4) False show ?thesis
        by (rule collect_gen_type_second_tag)
    qed
    with Some v show ?thesis
      by (simp add: Let_def)
  qed
qed

lemma collect_gen_type_nonempty:
  assumes "collect_gen_type ps acc = Inr gen_type"
    and "acc \<noteq> [] \<or> (\<exists>p\<in>set ps. genType p \<noteq> None)"
  shows "gen_type \<noteq> []"
  using assms
proof (induction ps arbitrary: acc)
  case Nil
  then show ?case by simp
next
  case (Cons p ps)
  show ?case
  proof (cases "genType p")
    case None
    with Cons.prems have "collect_gen_type ps acc = Inr gen_type"
      and "acc \<noteq> [] \<or> (\<exists>p\<in>set ps. genType p \<noteq> None)"
      by auto
    then show ?thesis
      by (rule Cons.IH)
  next
    case (Some g)
    with Cons.prems(1) have "collect_gen_type ps (List.insert g acc) = Inr gen_type"
      by (simp add: Let_def split: if_splits)
    moreover have "List.insert g acc \<noteq> []"
      by (auto simp: List.insert_def)
    ultimately show ?thesis
      using Cons.IH [of "List.insert g acc"] by blast
  qed
qed

text \<open>The specialisations never leave a tag behind.\<close>

lemma specific_type_not_generic:
  assumes "specific_type t n = Inr t'" and "genType t \<noteq> None"
  shows "genType t' = None"
  using assms
  by (auto simp: specific_type_def TType_of_dict_def normalize_def empty_dict_def
      split: option.splits if_splits)

lemma specific_sampler_or_image_type_not_generic:
  assumes "specific_sampler_or_image_type t pre = Inr t'" and "genType t \<noteq> None"
  shows "genType t' = None"
  using assms
  by (auto simp: specific_sampler_or_image_type_def TType_of_dict_def normalize_def empty_dict_def
      split: option.splits if_splits)

lemma specific_type_to_dimension:
  assumes "genType t \<noteq> None \<longrightarrow> basic t \<noteq> None"
  shows "specific_type t n = Inr (to_dimension n t)"
  using assms
  by (cases t)
    (auto simp: specific_type_def to_dimension_def TType_of_dict_def normalize_def empty_dict_def)

lemma specific_sampler_or_image_type_to_family:
  assumes "pre \<in> set ['''', ''I'', ''U'']"
  shows "specific_sampler_or_image_type t pre = Inr (to_family pre t)"
  using assms
  by (auto simp: specific_sampler_or_image_type_def to_family_def TType_of_dict_def
      normalize_def empty_dict_def split: option.splits)

lemma size_variant_dimension_variant:
  assumes "\<forall>p\<in>set (returnType d # parameters d). genType p \<noteq> None \<longrightarrow> basic p \<noteq> None"
  shows "size_variant d n = Inr (dimension_variant d n)"
proof -
  have "map_err (\<lambda>param. specific_type param n) (parameters d)
        = Inr (map (to_dimension n) (parameters d))"
    using assms by (intro map_err_total specific_type_to_dimension) simp
  moreover have "specific_type (returnType d) n = Inr (to_dimension n (returnType d))"
    using assms by (intro specific_type_to_dimension) simp
  ultimately show ?thesis
    by (simp add: size_variant_def dimension_variant_def get_parameters_def)
qed

lemma sampler_variant_family_variant:
  assumes "pre \<in> set ['''', ''I'', ''U'']"
  shows "sampler_variant d pre = Inr (family_variant d pre)"
proof -
  have "map_err (\<lambda>param. specific_sampler_or_image_type param pre) (parameters d)
        = Inr (map (to_family pre) (parameters d))"
    using assms by (intro map_err_total specific_sampler_or_image_type_to_family)
  moreover have "specific_sampler_or_image_type (returnType d) pre
                 = Inr (to_family pre (returnType d))"
    using assms by (rule specific_sampler_or_image_type_to_family)
  ultimately show ?thesis
    by (simp add: sampler_variant_def family_variant_def get_parameters_def)
qed

lemma variant_return_type_not_generic:
  assumes "gen_function_variants n d = Inr vs"
    and "\<exists>p\<in>set (parameters d). genType p \<noteq> None"
    and "v \<in> set vs"
  shows "genType (returnType v) = None"
proof -
  from assms(1) obtain gen_type where
    c: "collect_gen_type (parameters d) [] = Inr gen_type"
    by (auto simp: gen_function_variants_def get_parameters_def split: sum.splits)
  from collect_gen_type_nonempty [OF c] assms(2) have ne: "gen_type \<noteq> []"
    by blast
  show ?thesis
  proof (cases "''sampler_or_image'' \<in> set gen_type")
    case True
    with assms(1) c ne have "map_err (sampler_variant d) ['''', ''I'', ''U''] = Inr vs"
      by (simp add: gen_function_variants_def get_parameters_def)
    from map_err_set [OF this assms(3)] obtain pre where
      "pre \<in> set ['''', ''I'', ''U'']" and "sampler_variant d pre = Inr v"
      by blast
    with sampler_variant_family_variant [of pre d] have "v = family_variant d pre"
      by simp
    then show ?thesis
      by (simp add: family_variant_def to_family_def split: option.splits)
  next
    case False
    with assms(1) c ne have
      "map_err (size_variant d) (if ''vec'' \<in> set gen_type then [2, 3, 4] else [1, 2, 3, 4]) = Inr vs"
      by (simp add: gen_function_variants_def get_parameters_def)
    from map_err_set [OF this assms(3)] obtain k where "size_variant d k = Inr v"
      by blast
    then obtain rt where "specific_type (returnType d) k = Inr rt" and "returnType v = rt"
      by (auto simp: size_variant_def split: sum.splits)
    then have rt: "specific_type (returnType d) k = Inr (returnType v)"
      by simp
    show ?thesis
    proof (cases "genType (returnType d) = None")
      case True
      with rt show ?thesis
        by (simp add: specific_type_def)
    next
      case False
      with rt show ?thesis
        by (rule specific_type_not_generic)
    qed
  qed
qed

text \<open>
  C7. A declaration with two parameters that carry different tags, each one of the three
  that \<open>parse_type\<close> sets, is rejected: \<open>gen_function_variants\<close> raises the exception
  for multiple values of \<open>genType\<close> and returns no variants. In particular this holds for
  one \<open>yes\<close> (\<open>genType\<close>) and one \<open>sampler_or_image\<close> parameter.
\<close>

theorem mixed_generics_rejected:
  assumes "p \<in> set (parameters d)" and "q \<in> set (parameters d)"
    and "genType p = Some g" and "genType q = Some h" and "g \<noteq> h"
    and "\<forall>x\<in>set (parameters d). \<forall>t. genType x = Some t
            \<longrightarrow> t \<in> set [''sampler_or_image'', ''vec'', ''yes'']"
  shows "gen_function_variants n d = Inl MultipleGenTypes"
  using collect_gen_type_multiple [OF assms(6) assms(1-5)]
  by (simp add: gen_function_variants_def get_parameters_def)

theorem mixed_generics_rejected_witness:
  "genType ex_genType = Some ''yes'' \<and> genType ex_gsampler2D = Some ''sampler_or_image''
   \<and> gen_function_variants ''f'' (ex_decl ''f'' ex_float [ex_genType, ex_gsampler2D])
       = Inl MultipleGenTypes"
proof -
  let ?d = "ex_decl ''f'' ex_float [ex_genType, ex_gsampler2D]"
  have p: "parameters ?d = [ex_genType, ex_gsampler2D]"
    by (simp add: ex_decl_def)
  have a: "genType ex_genType = Some ''yes''"
    and b: "genType ex_gsampler2D = Some ''sampler_or_image''"
    by (simp_all add: ex_genType_def ex_gsampler2D_def)
  have "gen_function_variants ''f'' ?d = Inl MultipleGenTypes"
    by (rule mixed_generics_rejected [of ex_genType ?d ex_gsampler2D "''yes''" "''sampler_or_image''"])
      (simp_all add: p a b)
  with a b show ?thesis
    by simp
qed

text \<open>
  Exactly what the two specialisations and one pass of the second loop give.
\<close>

lemma specific_type_exact:
  "specific_type t k =
     (if genType t \<noteq> None \<and> basic t = None then Inl (KeyError ''basic'')
      else Inr (to_dimension k t))"
proof (cases "genType t \<noteq> None \<and> basic t = None")
  case True
  then show ?thesis
    by (simp add: specific_type_def)
next
  case False
  then have "specific_type t k = Inr (to_dimension k t)"
    by (intro specific_type_to_dimension) auto
  with False show ?thesis
    by simp
qed

lemma map_err_error:
  assumes "\<forall>x\<in>set xs. f x = Inl e \<or> (\<exists>y. f x = Inr y)" and "\<exists>x\<in>set xs. f x = Inl e"
  shows "map_err f xs = Inl e"
  using assms
proof (induction xs)
  case Nil
  then show ?case by simp
next
  case (Cons x xs)
  show ?case
  proof (cases "f x")
    case (Inl e')
    with Cons.prems(1) have "e' = e"
      by auto
    with Inl show ?thesis
      by simp
  next
    case (Inr y)
    with Cons.prems have "\<forall>x\<in>set xs. f x = Inl e \<or> (\<exists>y. f x = Inr y)"
      and "\<exists>x\<in>set xs. f x = Inl e"
      by auto
    then have "map_err f xs = Inl e"
      by (rule Cons.IH)
    with Inr show ?thesis
      by simp
  qed
qed

lemma size_variant_exact:
  "size_variant d k =
     (if \<exists>p\<in>set (returnType d # parameters d). genType p \<noteq> None \<and> basic p = None
      then Inl (KeyError ''basic'')
      else Inr (dimension_variant d k))"
proof (cases "\<exists>p\<in>set (returnType d # parameters d). genType p \<noteq> None \<and> basic p = None")
  case False
  then have "\<forall>p\<in>set (returnType d # parameters d). genType p \<noteq> None \<longrightarrow> basic p \<noteq> None"
    by auto
  then have "size_variant d k = Inr (dimension_variant d k)"
    by (rule size_variant_dimension_variant)
  with False show ?thesis
    by simp
next
  case True
  have "size_variant d k = Inl (KeyError ''basic'')"
  proof (cases "\<exists>p\<in>set (parameters d). genType p \<noteq> None \<and> basic p = None")
    case bad: True
    have "map_err (\<lambda>param. specific_type param k) (parameters d) = Inl (KeyError ''basic'')"
    proof (rule map_err_error)
      show "\<forall>x\<in>set (parameters d). specific_type x k = Inl (KeyError ''basic'')
                \<or> (\<exists>y. specific_type x k = Inr y)"
        by (simp add: specific_type_exact)
      show "\<exists>x\<in>set (parameters d). specific_type x k = Inl (KeyError ''basic'')"
        using bad by (auto simp: specific_type_exact)
    qed
    then show ?thesis
      by (simp add: size_variant_def get_parameters_def)
  next
    case good: False
    with True have rt: "genType (returnType d) \<noteq> None \<and> basic (returnType d) = None"
      by auto
    have "map_err (\<lambda>param. specific_type param k) (parameters d)
          = Inr (map (to_dimension k) (parameters d))"
      using good by (intro map_err_total) (auto simp: specific_type_exact)
    moreover have "specific_type (returnType d) k = Inl (KeyError ''basic'')"
      using rt by (simp add: specific_type_exact)
    ultimately show ?thesis
      by (simp add: size_variant_def get_parameters_def)
  qed
  with True show ?thesis
    by simp
qed

text \<open>
  C3, as the script has it. The tags are collected from the parameters only, and the
  tag of the return type takes no part in the check. A declaration none of whose
  parameters has a tag is its own single variant, whatever its return type. When the
  parameters carry one tag, the outcome is fixed whatever tag the return type has, and
  in each variant the return type is the declared one specialised for that variant: for
  \<open>sampler_or_image\<close> to the family of the variant; for \<open>vec\<close> and \<open>yes\<close> to the
  dimension of the variant, where a type with a tag and no basic kind, the return type
  included, makes the expansion raise \<open>KeyError\<close>.
\<close>

theorem variants_scan_parameters_only:
  assumes "\<forall>p\<in>set (parameters d). genType p = None \<or> genType p = Some t"
    and "t \<in> set [''sampler_or_image'', ''vec'', ''yes'']"
  shows "((\<forall>p\<in>set (parameters d). genType p = None) \<longrightarrow> gen_function_variants n d = Inr [d])
    \<and> ((\<exists>p\<in>set (parameters d). genType p = Some t) \<longrightarrow>
         (t = ''sampler_or_image'' \<longrightarrow>
            gen_function_variants n d
              = Inr (map (\<lambda>pre. d\<lparr>parameters := map (to_family pre) (parameters d),
                                   returnType := to_family pre (returnType d)\<rparr>)
                       ['''', ''I'', ''U'']))
       \<and> (t \<noteq> ''sampler_or_image'' \<longrightarrow>
            gen_function_variants n d
              = (if \<exists>p\<in>set (returnType d # parameters d). genType p \<noteq> None \<and> basic p = None
                 then Inl (KeyError ''basic'')
                 else Inr (map (\<lambda>k. d\<lparr>parameters := map (to_dimension k) (parameters d),
                                         returnType := to_dimension k (returnType d)\<rparr>)
                             (if t = ''vec'' then [2, 3, 4] else [1, 2, 3, 4])))))"
proof (intro conjI impI)
  assume "\<forall>p\<in>set (parameters d). genType p = None"
  then have "collect_gen_type (parameters d) [] = Inr []"
    by (rule collect_gen_type_none)
  then show "gen_function_variants n d = Inr [d]"
    by (simp add: gen_function_variants_def get_parameters_def)
next
  assume some: "\<exists>p\<in>set (parameters d). genType p = Some t" and t: "t = ''sampler_or_image''"
  have "collect_gen_type (parameters d) [] = Inr [t]"
    using collect_gen_type_single [OF assms, of "[]"] some by simp
  moreover have "map_err (sampler_variant d) ['''', ''I'', ''U'']
                 = Inr (map (family_variant d) ['''', ''I'', ''U''])"
    by (intro map_err_total sampler_variant_family_variant)
  ultimately have "gen_function_variants n d = Inr (map (family_variant d) ['''', ''I'', ''U''])"
    using t by (simp add: gen_function_variants_def get_parameters_def)
  then show "gen_function_variants n d
              = Inr (map (\<lambda>pre. d\<lparr>parameters := map (to_family pre) (parameters d),
                                   returnType := to_family pre (returnType d)\<rparr>)
                       ['''', ''I'', ''U''])"
    by (simp add: family_variant_def)
next
  assume some: "\<exists>p\<in>set (parameters d). genType p = Some t" and t: "t \<noteq> ''sampler_or_image''"
  let ?dims = "if t = ''vec'' then [2, 3, 4] else [1, 2, 3, 4 :: int]"
  let ?bad = "\<exists>p\<in>set (returnType d # parameters d). genType p \<noteq> None \<and> basic p = None"
  have c: "collect_gen_type (parameters d) [] = Inr [t]"
    using collect_gen_type_single [OF assms, of "[]"] some by simp
  have g: "gen_function_variants n d = map_err (size_variant d) ?dims"
    using c t by (simp add: gen_function_variants_def get_parameters_def)
  have m: "map_err (size_variant d) ?dims
           = (if ?bad then Inl (KeyError ''basic'') else Inr (map (dimension_variant d) ?dims))"
  proof (cases ?bad)
    case True
    then have "size_variant d k = Inl (KeyError ''basic'')" for k
      by (simp only: size_variant_exact if_True)
    with True show ?thesis
      by simp
  next
    case False
    then have "size_variant d k = Inr (dimension_variant d k)" for k
      by (simp only: size_variant_exact if_False)
    then have "map_err (size_variant d) ?dims = Inr (map (dimension_variant d) ?dims)"
      by (intro map_err_total)
    with False show ?thesis
      by (simp only: if_False)
  qed
  have v: "dimension_variant d = (\<lambda>k. d\<lparr>parameters := map (to_dimension k) (parameters d),
                                         returnType := to_dimension k (returnType d)\<rparr>)"
    by (rule ext) (simp add: dimension_variant_def)
  from g m show "gen_function_variants n d
              = (if ?bad then Inl (KeyError ''basic'')
                 else Inr (map (\<lambda>k. d\<lparr>parameters := map (to_dimension k) (parameters d),
                                         returnType := to_dimension k (returnType d)\<rparr>) ?dims))"
    by (simp only: v)
qed

text \<open>
  Four declarations: \<open>genType f(float)\<close> is not expanded; in
  \<open>gsampler2D pick(genType)\<close> and \<open>genType texture(gsampler2D)\<close> the tag of the return type
  differs from the tag of the parameters and is no conflict, and the return type is
  specialised the way the parameters' tag says; \<open>genType sin(genType)\<close> gets return
  types of dimensions 1 to 4.
\<close>

theorem variants_scan_parameters_only_witness:
  "gen_function_variants ''f'' (ex_decl ''f'' ex_genType [ex_float])
     = Inr [ex_decl ''f'' ex_genType [ex_float]]
   \<and> (\<exists>vs. gen_function_variants ''sin'' (ex_decl ''sin'' ex_genType [ex_genType]) = Inr vs
          \<and> map (\<lambda>v. (primarySize (returnType v), genType (returnType v))) vs
              = [(1, None), (2, None), (3, None), (4, None)])
   \<and> (\<exists>vs. gen_function_variants ''pick'' (ex_decl ''pick'' ex_gsampler2D [ex_genType]) = Inr vs
          \<and> map (\<lambda>v. (basic (returnType v), primarySize (returnType v))) vs
              = [(Some ''Sampler2D'', 1), (Some ''Sampler2D'', 2),
                 (Some ''Sampler2D'', 3), (Some ''Sampler2D'', 4)])
   \<and> (\<exists>vs. gen_function_variants ''texture'' (ex_decl ''texture'' ex_genType [ex_gsampler2D])
              = Inr vs
          \<and> map (\<lambda>v. basic (returnType v)) vs = [Some ''Float'', Some ''IFloat'', Some ''UFloat''])"
proof -
  let ?f = "ex_decl ''f'' ex_genType [ex_float]"
  let ?s = "ex_decl ''sin'' ex_genType [ex_genType]"
  let ?p = "ex_decl ''pick'' ex_gsampler2D [ex_genType]"
  let ?t = "ex_decl ''texture'' ex_genType [ex_gsampler2D]"
  have a1: "gen_function_variants ''f'' ?f = Inr [?f]"
    using variants_scan_parameters_only [of ?f "''yes''" "''f''"]
    by (simp add: ex_decl_def ex_float_def)
  have a2: "gen_function_variants ''sin'' ?s
           = Inr (map (\<lambda>k. ?s\<lparr>parameters := map (to_dimension k) (parameters ?s),
                               returnType := to_dimension k (returnType ?s)\<rparr>) [1, 2, 3, 4])"
    using variants_scan_parameters_only [of ?s "''yes''" "''sin''"]
    by (simp add: ex_decl_def ex_genType_def)
  have a3: "gen_function_variants ''pick'' ?p
           = Inr (map (\<lambda>k. ?p\<lparr>parameters := map (to_dimension k) (parameters ?p),
                               returnType := to_dimension k (returnType ?p)\<rparr>) [1, 2, 3, 4])"
    using variants_scan_parameters_only [of ?p "''yes''" "''pick''"]
    by (simp add: ex_decl_def ex_genType_def ex_gsampler2D_def)
  have a4: "gen_function_variants ''texture'' ?t
           = Inr (map (\<lambda>pre. ?t\<lparr>parameters := map (to_family pre) (parameters ?t),
                                 returnType := to_family pre (returnType ?t)\<rparr>)
                    ['''', ''I'', ''U''])"
    using variants_scan_parameters_only [of ?t "''sampler_or_image''" "''texture''"]
    by (simp add: ex_decl_def ex_gsampler2D_def)
  have b2: "\<exists>vs. gen_function_variants ''sin'' ?s = Inr vs
          \<and> map (\<lambda>v. (primarySize (returnType v), genType (returnType v))) vs
              = [(1, None), (2, None), (3, None), (4, None)]"
    unfolding a2 by (simp add: to_dimension_def ex_decl_def ex_genType_def)
  have b3: "\<exists>vs. gen_function_variants ''pick'' ?p = Inr vs
          \<and> map (\<lambda>v. (basic (returnType v), primarySize (returnType v))) vs
              = [(Some ''Sampler2D'', 1), (Some ''Sampler2D'', 2),
                 (Some ''Sampler2D'', 3), (Some ''Sampler2D'', 4)]"
    unfolding a3 by (simp add: to_dimension_def ex_decl_def ex_gsampler2D_def)
  have b4: "\<exists>vs. gen_function_variants ''texture'' ?t = Inr vs
          \<and> map (\<lambda>v. basic (returnType v)) vs = [Some ''Float'', Some ''IFloat'', Some ''UFloat'']"
    unfolding a4 by (simp add: to_family_def ex_decl_def ex_genType_def)
  from a1 b2 b3 b4 show ?thesis
    by (intro conjI)
qed

text \<open>
  C3 as the specification states it fails: \<open>genType f(float)\<close> has a generic return type
  and no generic parameter; it is not expanded, and the return type of its single
  variant still carries the tag.
\<close>

theorem return_only_generic_counterexample:
  "TType_of_string ''genType'' = Inr ex_genType
   \<and> TType_of_string ''float'' = Inr ex_float
   \<and> genType ex_genType = Some ''yes''
   \<and> gen_function_variants ''f'' (ex_decl ''f'' ex_genType [ex_float])
       = Inr [ex_decl ''f'' ex_genType [ex_float]]
   \<and> genType (returnType (ex_decl ''f'' ex_genType [ex_float])) = Some ''yes''"
  by code_simp

text \<open>
  C4, as the script has it. Let the parameters carry exactly one tag \<open>t\<close>. For
  \<open>sampler_or_image\<close> there are exactly three variants, for the prefixes of the float, int
  and uint families in this order. For \<open>yes\<close> there are exactly four, of dimensions 1, 2,
  3, 4, and for \<open>vec\<close> exactly three, of dimensions 2, 3, 4, provided every type of the
  declaration that has a tag, the return type included, has a basic kind. Without any
  tag on the parameters the declaration is its own single variant.
\<close>

theorem generic_expansion:
  assumes "\<forall>p\<in>set (parameters d). genType p = None \<or> genType p = Some t"
  shows "((\<forall>p\<in>set (parameters d). genType p = None) \<longrightarrow> gen_function_variants n d = Inr [d])
    \<and> ((\<exists>p\<in>set (parameters d). genType p = Some t) \<longrightarrow>
         (t = ''sampler_or_image'' \<longrightarrow>
            gen_function_variants n d = Inr (map (family_variant d) ['''', ''I'', ''U'']))
       \<and> ((\<forall>p\<in>set (returnType d # parameters d). genType p \<noteq> None \<longrightarrow> basic p \<noteq> None) \<longrightarrow>
            (t = ''yes'' \<longrightarrow>
               gen_function_variants n d = Inr (map (dimension_variant d) [1, 2, 3, 4]))
          \<and> (t = ''vec'' \<longrightarrow>
               gen_function_variants n d = Inr (map (dimension_variant d) [2, 3, 4]))))"
proof (intro conjI impI)
  assume "\<forall>p\<in>set (parameters d). genType p = None"
  then have "collect_gen_type (parameters d) [] = Inr []"
    by (rule collect_gen_type_none)
  then show "gen_function_variants n d = Inr [d]"
    by (simp add: gen_function_variants_def get_parameters_def)
next
  assume some: "\<exists>p\<in>set (parameters d). genType p = Some t" and t: "t = ''sampler_or_image''"
  have "collect_gen_type (parameters d) [] = Inr [t]"
    using collect_gen_type_single [OF assms, of "[]"] some t by simp
  moreover have "map_err (sampler_variant d) ['''', ''I'', ''U'']
                 = Inr (map (family_variant d) ['''', ''I'', ''U''])"
    by (intro map_err_total sampler_variant_family_variant)
  ultimately show "gen_function_variants n d = Inr (map (family_variant d) ['''', ''I'', ''U''])"
    using t by (simp add: gen_function_variants_def get_parameters_def)
next
  assume some: "\<exists>p\<in>set (parameters d). genType p = Some t" and t: "t = ''yes''"
    and basics: "\<forall>p\<in>set (returnType d # parameters d). genType p \<noteq> None \<longrightarrow> basic p \<noteq> None"
  have "collect_gen_type (parameters d) [] = Inr [t]"
    using collect_gen_type_single [OF assms, of "[]"] some t by simp
  moreover have "map_err (size_variant d) [1, 2, 3, 4] = Inr (map (dimension_variant d) [1, 2, 3, 4])"
    using basics by (intro map_err_total size_variant_dimension_variant)
  ultimately show "gen_function_variants n d = Inr (map (dimension_variant d) [1, 2, 3, 4])"
    using t by (simp add: gen_function_variants_def get_parameters_def)
next
  assume some: "\<exists>p\<in>set (parameters d). genType p = Some t" and t: "t = ''vec''"
    and basics: "\<forall>p\<in>set (returnType d # parameters d). genType p \<noteq> None \<longrightarrow> basic p \<noteq> None"
  have "collect_gen_type (parameters d) [] = Inr [t]"
    using collect_gen_type_single [OF assms, of "[]"] some t by simp
  moreover have "map_err (size_variant d) [2, 3, 4] = Inr (map (dimension_variant d) [2, 3, 4])"
    using basics by (intro map_err_total size_variant_dimension_variant)
  ultimately show "gen_function_variants n d = Inr (map (dimension_variant d) [2, 3, 4])"
    using t by (simp add: gen_function_variants_def get_parameters_def)
qed

theorem generic_expansion_witness:
  "gen_function_variants ''sin'' (ex_decl ''sin'' ex_genType [ex_genType])
     = Inr (map (dimension_variant (ex_decl ''sin'' ex_genType [ex_genType])) [1, 2, 3, 4])
   \<and> map (\<lambda>v. map primarySize (parameters v))
        (map (dimension_variant (ex_decl ''sin'' ex_genType [ex_genType])) [1, 2, 3, 4])
       = [[1], [2], [3], [4]]
   \<and> gen_function_variants ''abs'' (ex_decl ''abs'' ex_ivec [ex_ivec])
       = Inr (map (dimension_variant (ex_decl ''abs'' ex_ivec [ex_ivec])) [2, 3, 4])
   \<and> gen_function_variants ''texture'' (ex_decl ''texture'' ex_gvec4 [ex_gsampler2D, ex_float])
       = Inr (map (family_variant (ex_decl ''texture'' ex_gvec4 [ex_gsampler2D, ex_float]))
                ['''', ''I'', ''U''])
   \<and> map (\<lambda>v. map basic (returnType v # parameters v))
        (map (family_variant (ex_decl ''texture'' ex_gvec4 [ex_gsampler2D, ex_float]))
           ['''', ''I'', ''U''])
       = [[Some ''Float'', Some ''Sampler2D'', Some ''Float''],
          [Some ''Int'', Some ''ISampler2D'', Some ''Float''],
          [Some ''UInt'', Some ''USampler2D'', Some ''Float'']]
   \<and> gen_function_variants ''g'' (ex_decl ''g'' ex_float [ex_float])
       = Inr [ex_decl ''g'' ex_float [ex_float]]"
proof -
  let ?s = "ex_decl ''sin'' ex_genType [ex_genType]"
  let ?a = "ex_decl ''abs'' ex_ivec [ex_ivec]"
  let ?t = "ex_decl ''texture'' ex_gvec4 [ex_gsampler2D, ex_float]"
  let ?g = "ex_decl ''g'' ex_float [ex_float]"
  have 1: "gen_function_variants ''sin'' ?s = Inr (map (dimension_variant ?s) [1, 2, 3, 4])"
    using generic_expansion [of ?s "''yes''" "''sin''"]
    by (simp add: ex_decl_def ex_genType_def)
  have 2: "gen_function_variants ''abs'' ?a = Inr (map (dimension_variant ?a) [2, 3, 4])"
    using generic_expansion [of ?a "''vec''" "''abs''"]
    by (simp add: ex_decl_def ex_ivec_def)
  have 3: "gen_function_variants ''texture'' ?t = Inr (map (family_variant ?t) ['''', ''I'', ''U''])"
    using generic_expansion [of ?t "''sampler_or_image''" "''texture''"]
    by (simp add: ex_decl_def ex_gsampler2D_def ex_float_def)
  have 4: "gen_function_variants ''g'' ?g = Inr [?g]"
    using generic_expansion [of ?g "''yes''" "''g''"]
    by (simp add: ex_decl_def ex_float_def)
  have 5: "map (\<lambda>v. map primarySize (parameters v)) (map (dimension_variant ?s) [1, 2, 3, 4])
           = [[1], [2], [3], [4]]"
    by (simp add: dimension_variant_def to_dimension_def ex_decl_def ex_genType_def)
  have 6: "map (\<lambda>v. map basic (returnType v # parameters v))
             (map (family_variant ?t) ['''', ''I'', ''U''])
           = [[Some ''Float'', Some ''Sampler2D'', Some ''Float''],
              [Some ''Int'', Some ''ISampler2D'', Some ''Float''],
              [Some ''UInt'', Some ''USampler2D'', Some ''Float'']]"
    by (simp add: family_variant_def to_family_def ex_decl_def ex_gvec4_def
        ex_gsampler2D_def ex_float_def)
  from 1 2 3 4 5 6 show ?thesis
    by (intro conjI)
qed

text \<open>
  C4 as the specification states it fails: in \<open>gvec4 f(genType)\<close> the parameters carry
  the single tag \<open>yes\<close>, but the return type has a tag and no basic kind, and the
  expansion raises \<open>KeyError\<close> instead of yielding four variants.
\<close>

theorem generic_expansion_counterexample:
  "TType_of_string ''gvec4'' = Inr ex_gvec4
   \<and> TType_of_string ''genType'' = Inr ex_genType
   \<and> map genType (parameters (ex_decl ''f'' ex_gvec4 [ex_genType])) = [Some ''yes'']
   \<and> gen_function_variants ''f'' (ex_decl ''f'' ex_gvec4 [ex_genType]) = Inl (KeyError ''basic'')"
  by code_simp

section \<open>The record of unmangled names\<close>

lemma get_add_obj_other:
  assumes "add_obj objs l c n obj = Inr objs'" and "l \<noteq> lvl \<or> n \<noteq> nm"
  shows "get objs' lvl cnd nm = get objs lvl cnd nm"
  using assms
  by (auto simp: get_def has_key_def add_obj_def update_conv' Let_def
      split: option.splits if_splits)

lemma add_unmangled_shadowed:
  assumes "get (unmangled_function_if_statements st) (ta_level targs) ''NO_CONDITION''
             (ta_name targs) = Inr (Some r)"
    and "u_extension r = ''UNDEFINED''"
  shows "add_unmangled condition targs st = Inr st"
  using assms by (simp add: add_unmangled_def)

lemma add_unmangled_keeps:
  assumes "get (unmangled_function_if_statements st) lvl ''NO_CONDITION'' nm = Inr (Some r)"
    and "u_extension r = ''UNDEFINED''"
    and "add_unmangled condition targs st = Inr st'"
  shows "get (unmangled_function_if_statements st') lvl ''NO_CONDITION'' nm = Inr (Some r)"
proof (cases "ta_level targs = lvl \<and> ta_name targs = nm")
  case True
  with assms(1,2) have "add_unmangled condition targs st = Inr st"
    by (intro add_unmangled_shadowed [of st targs r]) simp_all
  with assms(1,3) show ?thesis
    by simp
next
  case False
  from assms(3) have "st' = st
    \<or> (\<exists>objs obj x. add_obj (unmangled_function_if_statements st) (ta_level targs) condition
                      (ta_name targs) obj = Inr objs
                  \<and> st' = st\<lparr>unmangled_function_if_statements := objs,
                               unmangled_builtin_declarations := x\<rparr>)"
    by (auto simp: add_unmangled_def split: sum.splits if_splits)
  then show ?thesis
  proof
    assume "st' = st"
    with assms(1) show ?thesis by simp
  next
    assume "\<exists>objs obj x. add_obj (unmangled_function_if_statements st) (ta_level targs) condition
                      (ta_name targs) obj = Inr objs
                  \<and> st' = st\<lparr>unmangled_function_if_statements := objs,
                               unmangled_builtin_declarations := x\<rparr>"
    then obtain objs obj x where
      a: "add_obj (unmangled_function_if_statements st) (ta_level targs) condition
            (ta_name targs) obj = Inr objs"
      and s: "st' = st\<lparr>unmangled_function_if_statements := objs,
                        unmangled_builtin_declarations := x\<rparr>"
      by blast
    from False have "ta_level targs \<noteq> lvl \<or> ta_name targs \<noteq> nm"
      by simp
    from get_add_obj_other [OF a this] assms(1) s show ?thesis
      by simp
  qed
qed

lemma process_variant_unmangled:
  assumes "process_variant condition targs fp st = Inr st'"
  shows "unmangled_function_if_statements st' = unmangled_function_if_statements st"
  using assms
  by (auto simp: process_variant_def Let_def split: sum.splits option.splits if_splits)

lemma process_function_keeps:
  assumes "get (unmangled_function_if_statements st) lvl ''NO_CONDITION'' nm = Inr (Some r)"
    and "u_extension r = ''UNDEFINED''"
    and "process_function condition fp st = Inr st'"
  shows "get (unmangled_function_if_statements st') lvl ''NO_CONDITION'' nm = Inr (Some r)"
proof -
  let ?P = "\<lambda>s. get (unmangled_function_if_statements s) lvl ''NO_CONDITION'' nm = Inr (Some r)"
  from process_function_steps [OF assms(3)] obtain targs vs x st2 where
    a: "add_unmangled condition targs (st\<lparr>name_declarations := x\<rparr>) = Inr st2"
    and f: "fold_err (process_variant condition targs) vs st2 = Inr st'"
    by blast
  have "?P (st\<lparr>name_declarations := x\<rparr>)"
    using assms(1) by simp
  from add_unmangled_keeps [OF this assms(2) a] have st2: "?P st2" .
  show ?thesis
  proof (rule fold_err_invariant [where P = ?P])
    show "?P s \<Longrightarrow> process_variant condition targs v s = Inr s' \<Longrightarrow> ?P s'" for v s s'
      by (simp add: process_variant_unmangled)
    show "?P st2"
      by (rule st2)
    show "fold_err (process_variant condition targs) vs st2 = Inr st'"
      by (rule f)
  qed
qed

text \<open>
  C6. Once the record of a name at a level under \<open>NO_CONDITION\<close> has the extension
  \<open>UNDEFINED\<close>, every later attempt for this name and level, under any condition and with
  any extension, leaves the whole state as it is; and whatever groups are processed
  afterwards, the stored record is still the same.
\<close>

theorem shadowing:
  assumes "get (unmangled_function_if_statements st) lvl ''NO_CONDITION'' nm = Inr (Some r)"
    and "u_extension r = ''UNDEFINED''"
  shows "(\<forall>condition (targs :: template_args). ta_level targs = lvl \<and> ta_name targs = nm
            \<longrightarrow> add_unmangled condition targs st = Inr st)
         \<and> (\<forall>groups st'. process_subgroups groups st = Inr st'
            \<longrightarrow> get (unmangled_function_if_statements st') lvl ''NO_CONDITION'' nm = Inr (Some r))"
proof (intro conjI allI impI)
  fix condition and targs :: template_args
  assume "ta_level targs = lvl \<and> ta_name targs = nm"
  with assms show "add_unmangled condition targs st = Inr st"
    by (intro add_unmangled_shadowed [of st targs r]) simp_all
next
  fix groups st'
  let ?P = "\<lambda>s. get (unmangled_function_if_statements s) lvl ''NO_CONDITION'' nm = Inr (Some r)"
  assume g: "process_subgroups groups st = Inr st'"
  have "?P st \<longrightarrow> process_subgroups groups st = Inr st' \<longrightarrow> ?P st'"
  proof (rule process_groups_invariant(2) [of ?P])
    show "?P s \<Longrightarrow> ?P (s\<lparr>insert_functions_by_condition := x\<rparr>)" for s x
      by simp
    show "?P s \<Longrightarrow> process_function c fp s = Inr s' \<Longrightarrow> ?P s'" for c fp s s'
      using assms(2) by (rule process_function_keeps [rotated])
  qed
  with assms(1) g show "?P st'"
    by blast
qed

theorem shadowing_witness:
  "\<exists>st r. process_all ex_parsed = Inr st
     \<and> get (unmangled_function_if_statements st) ''COMMON_BUILTINS'' ''NO_CONDITION'' ''sin''
         = Inr (Some r)
     \<and> u_extension r = ''UNDEFINED''
     \<and> add_unmangled ''shaderType == GL_FRAGMENT_SHADER''
          ((ex_targs ''sin'' '''')\<lparr>ta_extension := ''OES_standard_derivatives''\<rparr>) st = Inr st"
proof -
  have "case process_all ex_parsed of
          Inl _ \<Rightarrow> False
        | Inr st \<Rightarrow>
            (case get (unmangled_function_if_statements st) ''COMMON_BUILTINS'' ''NO_CONDITION''
                    ''sin'' of
               Inr (Some r) \<Rightarrow> u_extension r = ''UNDEFINED''
             | _ \<Rightarrow> False)"
    by code_simp
  then obtain st r where p: "process_all ex_parsed = Inr st"
    and g: "get (unmangled_function_if_statements st) ''COMMON_BUILTINS'' ''NO_CONDITION'' ''sin''
              = Inr (Some r)"
    and u: "u_extension r = ''UNDEFINED''"
    by (auto split: sum.splits option.splits)
  let ?t = "(ex_targs ''sin'' '''')\<lparr>ta_extension := ''OES_standard_derivatives''\<rparr>"
  have "ta_level ?t = ''COMMON_BUILTINS'' \<and> ta_name ?t = ''sin''"
    by (simp add: ex_targs_def)
  with shadowing [OF g u] have "add_unmangled ''shaderType == GL_FRAGMENT_SHADER'' ?t st = Inr st"
    by blast
  with p g u show ?thesis
    by blast
qed

section \<open>Groups that are never closed\<close>

lemma group_begin_effect:
  assumes "group_begin loads l ps = Inr ps1"
  shows "parsed_functions ps1 = parsed_functions ps
         \<and> length (group_stack ps1) = Suc (length (group_stack ps))"
  using assms unfolding group_begin_def Let_def
  by (auto split: sum.splits if_splits simp del: dropWhile_eq_Nil_conv)

lemma group_end_effect:
  assumes "group_end l ps = Inr ps1"
  shows "Suc (length (group_stack ps1)) = length (group_stack ps)
         \<and> (2 \<le> length (group_stack ps) \<longrightarrow> parsed_functions ps1 = parsed_functions ps)"
  using assms by (auto simp: group_end_def Let_def split: list.splits if_splits)

lemma default_metadata_line_effect:
  assumes "default_metadata_line loads l ps = Inr ps1"
  shows "parsed_functions ps1 = parsed_functions ps
         \<and> length (group_stack ps1) = length (group_stack ps)"
  using assms by (auto simp: default_metadata_line_def split: sum.splits)

lemma function_line_effect:
  assumes "function_line m ps = Inr ps1"
  shows "parsed_functions ps1 = parsed_functions ps
         \<and> length (group_stack ps1) = length (group_stack ps)"
  using assms
  by (auto simp: function_line_def Let_def split: prod.splits sum.splits list.splits)

lemma parse_line_begin:
  assumes "parse_line loads l ps = Inr ps1" and "startswith l ''GROUP BEGIN ''"
  shows "parsed_functions ps1 = parsed_functions ps
         \<and> length (group_stack ps1) = Suc (length (group_stack ps))"
proof -
  from assms have "group_begin loads l ps = Inr ps1"
    by (simp add: parse_line_def)
  then show ?thesis
    by (rule group_begin_effect)
qed

lemma parse_line_end:
  assumes "parse_line loads l ps = Inr ps1"
    and "\<not> startswith l ''GROUP BEGIN ''" and "startswith l ''GROUP END ''"
  shows "Suc (length (group_stack ps1)) = length (group_stack ps)
         \<and> (2 \<le> length (group_stack ps) \<longrightarrow> parsed_functions ps1 = parsed_functions ps)"
proof -
  from assms have "group_end l ps = Inr ps1"
    by (simp add: parse_line_def)
  then show ?thesis
    by (rule group_end_effect)
qed

lemma parse_line_other:
  assumes "parse_line loads l ps = Inr ps1"
    and "\<not> startswith l ''GROUP BEGIN ''" and "\<not> startswith l ''GROUP END ''"
  shows "parsed_functions ps1 = parsed_functions ps
         \<and> length (group_stack ps1) = length (group_stack ps)"
proof (cases "startswith l ''DEFAULT METADATA''")
  case True
  with assms have "default_metadata_line loads l ps = Inr ps1"
    by (simp add: parse_line_def)
  then show ?thesis
    by (rule default_metadata_line_effect)
next
  case False
  with assms show ?thesis
    by (auto simp: parse_line_def split: option.splits dest: function_line_effect)
qed

lemma never_closes_keeps:
  assumes "never_closes d ls" and "d < length (group_stack ps)"
    and "fold_err (parse_line loads) ls ps = Inr ps'"
  shows "parsed_functions ps' = parsed_functions ps \<and> group_stack ps' \<noteq> []"
  using assms
proof (induction ls arbitrary: d ps)
  case Nil
  then show ?case by auto
next
  case (Cons l ls)
  from Cons.prems(3) have "\<exists>ps1. parse_line loads l ps = Inr ps1
                              \<and> fold_err (parse_line loads) ls ps1 = Inr ps'"
    by (simp split: sum.splits)
  then obtain ps1 where p1: "parse_line loads l ps = Inr ps1"
    and r: "fold_err (parse_line loads) ls ps1 = Inr ps'"
    by blast
  show ?case
  proof (cases "startswith l ''GROUP BEGIN ''")
    case True
    with Cons.prems(1) have n: "never_closes (Suc d) ls"
      by simp
    from parse_line_begin [OF p1 True] Cons.prems(2) have l1: "Suc d < length (group_stack ps1)"
      and pf: "parsed_functions ps1 = parsed_functions ps"
      by simp_all
    from Cons.IH [OF n l1 r] pf show ?thesis
      by simp
  next
    case False
    show ?thesis
    proof (cases "startswith l ''GROUP END ''")
      case True
      with False Cons.prems(1) have d: "0 < d" and n: "never_closes (d - 1) ls"
        by simp_all
      from parse_line_end [OF p1 False True] have
        l1: "Suc (length (group_stack ps1)) = length (group_stack ps)"
        and pf: "2 \<le> length (group_stack ps) \<longrightarrow> parsed_functions ps1 = parsed_functions ps"
        by simp_all
      from l1 d Cons.prems(2) have l2: "d - 1 < length (group_stack ps1)"
        by arith
      from d Cons.prems(2) pf have pf': "parsed_functions ps1 = parsed_functions ps"
        by simp
      from Cons.IH [OF n l2 r] pf' show ?thesis
        by simp
    next
      case e': False
      with False Cons.prems(1) have n: "never_closes d ls"
        by simp
      from parse_line_other [OF p1 False e'] Cons.prems(2) have l1: "d < length (group_stack ps1)"
        and pf: "parsed_functions ps1 = parsed_functions ps"
        by simp_all
      from Cons.IH [OF n l1 r] pf show ?thesis
        by simp
    qed
  qed
qed

lemma clean_lines_append: "clean_lines (xs @ ys) = clean_lines xs @ clean_lines ys"
  by (simp add: clean_lines_def)

text \<open>
  C10. Let the input end with lines that open a group and never close it: after the
  lines \<open>pre\<close>, the cleaned rest starts with a \<open>GROUP BEGIN\<close> line and no later line
  closes more groups than were opened after it. If no line raises, then the stack is not
  empty at the end of the input, \<open>get_parsed_functions\<close> returns all the same, and what
  it returns is the mapping that \<open>pre\<close> alone gives: the open group, the groups inside
  it and all their declarations are not in it.
\<close>

theorem unterminated_groups_dropped:
  assumes "fold_err (parse_line loads) (clean_lines pre) init_parser_state = Inr ps"
    and "clean_lines rest = l # body"
    and "startswith l ''GROUP BEGIN ''"
    and "never_closes 0 body"
    and "fold_err (parse_line loads) (l # body) ps = Inr ps'"
  shows "get_parsed_functions loads (pre @ rest) = Inr (parsed_functions ps)
         \<and> get_parsed_functions loads pre = Inr (parsed_functions ps)
         \<and> group_stack ps' \<noteq> []"
proof -
  from assms(5) obtain ps1 where p1: "parse_line loads l ps = Inr ps1"
    and r: "fold_err (parse_line loads) body ps1 = Inr ps'"
    by (auto split: sum.splits)
  from parse_line_begin [OF p1 assms(3)] have s: "0 < length (group_stack ps1)"
    and f: "parsed_functions ps1 = parsed_functions ps"
    by simp_all
  from never_closes_keeps [OF assms(4) s r] f have
    k: "parsed_functions ps' = parsed_functions ps" and o: "group_stack ps' \<noteq> []"
    by simp_all
  have "fold_err (parse_line loads) (clean_lines (pre @ rest)) init_parser_state = Inr ps'"
    using assms(1,2,5) by (simp add: clean_lines_append fold_err_append)
  then have "get_parsed_functions loads (pre @ rest) = Inr (parsed_functions ps)"
    using k by (simp add: get_parsed_functions_def)
  moreover have "get_parsed_functions loads pre = Inr (parsed_functions ps)"
    using assms(1) by (simp add: get_parsed_functions_def)
  ultimately show ?thesis
    using o by simp
qed

theorem unterminated_groups_dropped_witness:
  "(\<exists>pf. get_parsed_functions ex_loads (ex_pre @ ex_rest) = Inr pf \<and> map fst pf = [''Math''])
   \<and> get_parsed_functions ex_loads (ex_pre @ ex_rest) = get_parsed_functions ex_loads ex_pre"
proof -
  let ?l = "''GROUP BEGIN Open''"
  let ?body = "[''float cos(float);'', ''GROUP BEGIN Inner'', ''float tan(float);'',
                ''GROUP END Inner'']"
  have "case fold_err (parse_line ex_loads) (clean_lines ex_pre) init_parser_state of
          Inl _ \<Rightarrow> False
        | Inr ps \<Rightarrow>
            map fst (parsed_functions ps) = [''Math'']
            \<and> (case fold_err (parse_line ex_loads) (?l # ?body) ps of
                 Inl _ \<Rightarrow> False | Inr _ \<Rightarrow> True)"
    by code_simp
  then obtain ps ps' where
    a: "fold_err (parse_line ex_loads) (clean_lines ex_pre) init_parser_state = Inr ps"
    and m: "map fst (parsed_functions ps) = [''Math'']"
    and b: "fold_err (parse_line ex_loads) (?l # ?body) ps = Inr ps'"
    by (auto split: sum.splits)
  have c: "clean_lines ex_rest = ?l # ?body"
    by code_simp
  have s: "startswith ?l ''GROUP BEGIN ''"
    by code_simp
  have n: "never_closes 0 ?body"
    by code_simp
  from unterminated_groups_dropped [OF a c s n b] m show ?thesis
    by simp
qed

end
